theory Spec2Isabelle
  imports Main "HOL-Library.Word" "HOL-Library.Sublist"
begin

section \<open>Data model\<close>

text \<open>
  The credit module of OpenList: the ledger (\<open>AddCredits\<close>, \<open>DeductCredits\<close>), the
  path pricing lookup, redeem codes, payment orders, the payment notification handler and
  the registration approval operations, embedded as functions on an explicit database
  state.

  Go's \<open>int64\<close> is a 64-bit word read as two's complement (\<open>sint\<close>, \<open><s\<close>); \<open>uint\<close>
  identifiers and Go's \<open>int\<close> counters (which the code only compares and increments
  below a bound) are \<open>nat\<close> and \<open>int\<close>. A \<open>time.Time\<close> is an instant on an integer
  time line, a \<open>*time.Time\<close> an optional instant, and \<open>time.Now()\<close> is a parameter
  \<open>now\<close> of the operation that reads the clock.
\<close>

type_synonym int64 = "64 word"
type_synonym time = int

text \<open>
  The errors of the source are \<open>gorm.ErrRecordNotFound\<close>, any other failure of a
  database statement, the messages built with \<open>errors.New\<close> and the contexts added with
  \<open>errors.Wrap\<close>. The messages are Chinese sentences in the source; each constructor
  stands for one of them, translated beside it.
\<close>

datatype message =
    InsufficientBalance       \<comment> \<open>"not enough credits"\<close>
  | CodeNotFound              \<comment> \<open>"the redeem code does not exist"\<close>
  | CodeUnusable              \<comment> \<open>"the redeem code is used up or expired"\<close>
  | InvalidOrderState         \<comment> \<open>"abnormal order status"\<close>
  | OrderExpired              \<comment> \<open>"the order has expired"\<close>
  | RegistrationNotVerified   \<comment> \<open>"the application is not verified or already handled"\<close>
  | InvalidSignature          \<comment> \<open>"invalid signature"\<close>
  | PaymentNotSuccessful      \<comment> \<open>"payment not successful"\<close>

datatype wrap_context =
    CreateAccountFailed | GetAccountFailed | UpdateAccountFailed | RecordTransactionFailed
  | GetConfigFailed | GetCodeFailed | UpdateCodeFailed | RecordUsageFailed | AddCreditsFailed
  | GetOrderFailed | UpdateOrderFailed | GetRegistrationFailed | CreateUserFailed
  | CreateCreditsAccountFailed | UpdateRegistrationFailed

datatype error =
    ErrRecordNotFound
  | ErrDB
  | ErrNew message
  | ErrWrap wrap_context error

text \<open>\<open>errors.Is(err, gorm.ErrRecordNotFound)\<close> looks through the wrapping.\<close>

fun is_not_found :: "error \<Rightarrow> bool" where
  "is_not_found ErrRecordNotFound = True"
| "is_not_found (ErrWrap c e) = is_not_found e"
| "is_not_found e = False"

record UserCredits =
  uc_ID :: nat
  uc_UserID :: nat
  uc_Balance :: int64
  uc_TotalEarn :: int64
  uc_TotalSpent :: int64

record CreditTransaction =
  ct_ID :: nat
  ct_UserID :: nat
  ct_Type :: string
  ct_Amount :: int64
  ct_Balance :: int64
  ct_Source :: string
  ct_SourceID :: string
  ct_Description :: string

record FileCreditsConfig =
  fc_ID :: nat
  fc_Path :: string
  fc_IsFolder :: bool
  fc_Credits :: int64
  fc_Inheritable :: bool
  fc_Enabled :: bool
  fc_CreatedBy :: nat

record RedeemCode =
  rc_ID :: nat
  rc_Code :: string
  rc_Credits :: int64
  rc_MaxUses :: int
  rc_UsedCount :: int
  rc_Enabled :: bool
  rc_ExpiresAt :: "time option"
  rc_CreatedBy :: nat
  rc_Description :: string

record RedeemCodeUsage =
  ru_ID :: nat
  ru_RedeemCodeID :: nat
  ru_UserID :: nat
  ru_Credits :: int64
  ru_UsedAt :: time

record PaymentOrder =
  po_ID :: nat
  po_OrderNo :: string
  po_UserID :: nat
  po_Credits :: int64
  po_Amount :: int64
  po_Currency :: string
  po_PaymentMethod :: string
  po_Status :: string
  po_PaidAt :: "time option"
  po_ExpiresAt :: time
  po_PaymentData :: string

record UserRegistration =
  ur_ID :: nat
  ur_Email :: string
  ur_Username :: string
  ur_Password :: string
  ur_PwdHash :: string
  ur_Salt :: string
  ur_Status :: int
  ur_Token :: string
  ur_ExpiresAt :: time

section \<open>The database\<close>

text \<open>
  One list per table, its live rows in primary-key order (a soft-deleted row is not in the
  list, as every query of the source skips it; the \<open>CreatedAt\<close>/\<open>UpdatedAt\<close> columns
  are not read by the code and are left out). Every statement sent to the database can
  fail: \<open>faults\<close> is the schedule of those failures, one flag for each statement still
  to come (\<open>True\<close>: the statement fails and changes nothing), and an exhausted schedule
  means that no further statement fails.
\<close>

record db =
  x_user_credits :: "UserCredits list"
  x_credit_transactions :: "CreditTransaction list"
  x_file_credits_configs :: "FileCreditsConfig list"
  x_redeem_codes :: "RedeemCode list"
  x_redeem_code_usages :: "RedeemCodeUsage list"
  x_payment_orders :: "PaymentOrder list"
  x_user_registrations :: "UserRegistration list"
  faults :: "bool list"

definition stmt :: "db \<Rightarrow> bool \<times> db" where
  "stmt st = (case faults st of [] \<Rightarrow> (False, st) | f # fs \<Rightarrow> (f, st\<lparr>faults := fs\<rparr>))"

text \<open>The auto-increment key of a new row.\<close>

definition fresh_id :: "nat list \<Rightarrow> nat" where
  "fresh_id ids = Suc (fold max ids 0)"

text \<open>
  \<open>db.Save(row)\<close> writes every column of the row with this primary key, and inserts the
  row when no row has the key.
\<close>

definition save_row :: "('r \<Rightarrow> nat) \<Rightarrow> 'r \<Rightarrow> 'r list \<Rightarrow> 'r list" where
  "save_row key r rows =
     (if \<exists>x \<in> set rows. key x = key r
      then map (\<lambda>x. if key x = key r then r else x) rows
      else rows @ [r])"

subsection \<open>Accounts and transactions\<close>

definition db_GetUserCreditsByUserID :: "nat \<Rightarrow> db \<Rightarrow> (error + UserCredits) \<times> db" where
  "db_GetUserCreditsByUserID userID st =
     (case stmt st of
        (True, st1) \<Rightarrow> (Inl ErrDB, st1)
      | (False, st1) \<Rightarrow>
          (case find (\<lambda>r. uc_UserID r = userID) (x_user_credits st1) of
             None \<Rightarrow> (Inl ErrRecordNotFound, st1)
           | Some r \<Rightarrow> (Inr r, st1)))"

text \<open>\<open>user_id\<close> carries a unique index: a second account of one user is refused.\<close>

definition db_CreateUserCredits :: "UserCredits \<Rightarrow> db \<Rightarrow> (error + UserCredits) \<times> db" where
  "db_CreateUserCredits credits st =
     (case stmt st of
        (True, st1) \<Rightarrow> (Inl ErrDB, st1)
      | (False, st1) \<Rightarrow>
          (if \<exists>r \<in> set (x_user_credits st1). uc_UserID r = uc_UserID credits
           then (Inl ErrDB, st1)
           else let c = credits\<lparr>uc_ID := fresh_id (map uc_ID (x_user_credits st1))\<rparr>
                in (Inr c, st1\<lparr>x_user_credits := x_user_credits st1 @ [c]\<rparr>)))"

definition db_UpdateUserCredits :: "UserCredits \<Rightarrow> db \<Rightarrow> (error + unit) \<times> db" where
  "db_UpdateUserCredits credits st =
     (case stmt st of
        (True, st1) \<Rightarrow> (Inl ErrDB, st1)
      | (False, st1) \<Rightarrow>
          (Inr (), st1\<lparr>x_user_credits := save_row uc_ID credits (x_user_credits st1)\<rparr>))"

definition db_CreateCreditTransaction :: "CreditTransaction \<Rightarrow> db \<Rightarrow> (error + unit) \<times> db" where
  "db_CreateCreditTransaction t st =
     (case stmt st of
        (True, st1) \<Rightarrow> (Inl ErrDB, st1)
      | (False, st1) \<Rightarrow>
          (Inr (), st1\<lparr>x_credit_transactions := x_credit_transactions st1 @
             [t\<lparr>ct_ID := fresh_id (map ct_ID (x_credit_transactions st1))\<rparr>]\<rparr>))"

section \<open>Ledger\<close>

definition CreateUserCredits :: "nat \<Rightarrow> db \<Rightarrow> (error + UserCredits) \<times> db" where
  "CreateUserCredits userID st =
     (case db_GetUserCreditsByUserID userID st of
        (Inr existing, st1) \<Rightarrow> (Inr existing, st1)
      | (Inl e, st1) \<Rightarrow>
          (case db_CreateUserCredits
                  \<lparr>uc_ID = 0, uc_UserID = userID, uc_Balance = 0, uc_TotalEarn = 0,
                   uc_TotalSpent = 0\<rparr> st1 of
             (Inl e2, st2) \<Rightarrow> (Inl (ErrWrap CreateAccountFailed e2), st2)
           | (Inr credits, st2) \<Rightarrow> (Inr credits, st2)))"

definition GetUserCredits :: "nat \<Rightarrow> db \<Rightarrow> (error + UserCredits) \<times> db" where
  "GetUserCredits userID st =
     (case db_GetUserCreditsByUserID userID st of
        (Inl e, st1) \<Rightarrow>
          (if is_not_found e then CreateUserCredits userID st1
           else (Inl (ErrWrap GetAccountFailed e), st1))
      | (Inr credits, st1) \<Rightarrow> (Inr credits, st1))"

definition AddCredits :: "nat \<Rightarrow> int64 \<Rightarrow> string \<Rightarrow> string \<Rightarrow> db \<Rightarrow> (error + unit) \<times> db" where
  "AddCredits userID amount reason orderID st =
     (case GetUserCredits userID st of
        (Inl e, st1) \<Rightarrow> (Inl e, st1)
      | (Inr credits0, st1) \<Rightarrow>
          (let credits = credits0\<lparr>uc_Balance := uc_Balance credits0 + amount,
                                   uc_TotalEarn := uc_TotalEarn credits0 + amount\<rparr>
           in case db_UpdateUserCredits credits st1 of
                (Inl e, st2) \<Rightarrow> (Inl (ErrWrap UpdateAccountFailed e), st2)
              | (Inr u, st2) \<Rightarrow>
                  (case db_CreateCreditTransaction
                          \<lparr>ct_ID = 0, ct_UserID = userID, ct_Type = ''earn'',
                           ct_Amount = amount, ct_Balance = uc_Balance credits,
                           ct_Source = reason, ct_SourceID = orderID,
                           ct_Description = reason\<rparr> st2 of
                     (Inl e, st3) \<Rightarrow> (Inl (ErrWrap RecordTransactionFailed e), st3)
                   | (Inr u2, st3) \<Rightarrow> (Inr (), st3))))"

definition DeductCredits :: "nat \<Rightarrow> int64 \<Rightarrow> string \<Rightarrow> string \<Rightarrow> db \<Rightarrow> (error + unit) \<times> db" where
  "DeductCredits userID amount reason fileID st =
     (case GetUserCredits userID st of
        (Inl e, st1) \<Rightarrow> (Inl e, st1)
      | (Inr credits0, st1) \<Rightarrow>
          (if uc_Balance credits0 <s amount then (Inl (ErrNew InsufficientBalance), st1)
           else
             let credits = credits0\<lparr>uc_Balance := uc_Balance credits0 - amount,
                                     uc_TotalSpent := uc_TotalSpent credits0 + amount\<rparr>
             in case db_UpdateUserCredits credits st1 of
                  (Inl e, st2) \<Rightarrow> (Inl (ErrWrap UpdateAccountFailed e), st2)
                | (Inr u, st2) \<Rightarrow>
                    (case db_CreateCreditTransaction
                            \<lparr>ct_ID = 0, ct_UserID = userID, ct_Type = ''spend'',
                             ct_Amount = - amount, ct_Balance = uc_Balance credits,
                             ct_Source = ''download'', ct_SourceID = fileID,
                             ct_Description = reason\<rparr> st2 of
                       (Inl e, st3) \<Rightarrow> (Inl (ErrWrap RecordTransactionFailed e), st3)
                     | (Inr u2, st3) \<Rightarrow> (Inr (), st3))))"

section \<open>Pricing\<close>

text \<open>
  The text operators of the queries are those of SQLite, the database that the program
  uses unless it is configured otherwise. Text is a list of bytes, in UTF-8 and without a
  zero byte. \<open>=\<close> compares byte by byte. \<open>LENGTH\<close> counts characters: the bytes that
  are not continuation bytes (\<open>10xxxxxx\<close>). Reading one character takes one byte and,
  when that byte is the lead byte of a longer sequence (\<open>11xxxxxx\<close>), the continuation
  bytes behind it.
\<close>

definition is_continuation :: "char \<Rightarrow> bool" where
  "is_continuation b = (digit7 b \<and> \<not> digit6 b)"

definition is_lead :: "char \<Rightarrow> bool" where
  "is_lead b = (digit7 b \<and> digit6 b)"

definition utf8_rest :: "char \<Rightarrow> string \<Rightarrow> string" where
  "utf8_rest c cs = (if is_lead c then dropWhile is_continuation cs else cs)"

definition sqlite_length :: "string \<Rightarrow> nat" where
  "sqlite_length s = length (filter (\<lambda>b. \<not> is_continuation b) s)"

definition ascii_lower :: "char \<Rightarrow> char" where
  "ascii_lower c =
     (case map_of (zip ''ABCDEFGHIJKLMNOPQRSTUVWXYZ'' ''abcdefghijklmnopqrstuvwxyz'') c of
        None \<Rightarrow> c | Some l \<Rightarrow> l)"

text \<open>
  The inheritance query compares with \<open>? LIKE CONCAT(path, '%')\<close>: the stored path,
  followed by \<open>%\<close>, is the pattern, and the queried path the text. In a \<open>LIKE\<close>
  pattern \<open>%\<close> stands for any run of characters and \<open>_\<close> for any one character; every
  other character stands for itself, the letters \<open>A\<close> to \<open>Z\<close> and \<open>a\<close> to \<open>z\<close>
  without regard to case. No \<open>ESCAPE\<close> clause is given.
\<close>

function sql_like :: "string \<Rightarrow> string \<Rightarrow> bool" where
  "sql_like [] [] = True"
| "sql_like (c # cs) [] = False"
| "sql_like [] (p # ps) = (p = CHR ''%'' \<and> sql_like [] ps)"
| "sql_like (c # cs) (p # ps) =
     (if p = CHR ''%'' then sql_like (c # cs) ps \<or> sql_like (utf8_rest c cs) (p # ps)
      else if p = CHR ''_'' then sql_like (utf8_rest c cs) ps
      else ascii_lower c = ascii_lower p \<and> sql_like cs ps)"
  by pat_completeness auto
termination
  by (relation "measure (\<lambda>(s, p). length s + length p)")
     (auto simp: utf8_rest_def less_Suc_eq_le intro: le_SucI length_dropWhile_le)

definition db_GetFileCreditsConfigByPath ::
    "string \<Rightarrow> db \<Rightarrow> (error + FileCreditsConfig) \<times> db" where
  "db_GetFileCreditsConfigByPath path st =
     (case stmt st of
        (True, st1) \<Rightarrow> (Inl ErrDB, st1)
      | (False, st1) \<Rightarrow>
          (case find (\<lambda>r. fc_Path r = path \<and> fc_Enabled r) (x_file_credits_configs st1) of
             None \<Rightarrow> (Inl ErrRecordNotFound, st1)
           | Some r \<Rightarrow> (Inr r, st1)))"

text \<open>
  \<open>Order("LENGTH(path) DESC").First\<close>: the matching rows by decreasing length of the
  path in characters, rows of equal length by primary key, and the first of them.
\<close>

definition db_GetInheritableCreditsConfig ::
    "string \<Rightarrow> db \<Rightarrow> (error + FileCreditsConfig) \<times> db" where
  "db_GetInheritableCreditsConfig path st =
     (case stmt st of
        (True, st1) \<Rightarrow> (Inl ErrDB, st1)
      | (False, st1) \<Rightarrow>
          (case sort_key (\<lambda>r. - int (sqlite_length (fc_Path r)))
                  (filter (\<lambda>r. sql_like path (fc_Path r @ ''%'') \<and> fc_IsFolder r \<and>
                                fc_Inheritable r \<and> fc_Enabled r)
                     (x_file_credits_configs st1)) of
             [] \<Rightarrow> (Inl ErrRecordNotFound, st1)
           | r # rs \<Rightarrow> (Inr r, st1)))"

definition GetFileCreditsConfig :: "string \<Rightarrow> db \<Rightarrow> (error + FileCreditsConfig) \<times> db" where
  "GetFileCreditsConfig path st =
     (case db_GetFileCreditsConfigByPath path st of
        (Inl e, st1) \<Rightarrow>
          (if is_not_found e then db_GetInheritableCreditsConfig path st1
           else (Inl (ErrWrap GetConfigFailed e), st1))
      | (Inr config, st1) \<Rightarrow> (Inr config, st1))"

text \<open>The result is Go's triple \<open>(bool, int64, error)\<close>.\<close>

definition CheckFileDownloadPermission ::
    "nat \<Rightarrow> string \<Rightarrow> db \<Rightarrow> (bool \<times> int64 \<times> error option) \<times> db" where
  "CheckFileDownloadPermission userID filePath st =
     (case GetFileCreditsConfig filePath st of
        (Inl e, st1) \<Rightarrow> ((True, 0, None), st1)
      | (Inr config, st1) \<Rightarrow>
          (if word_sle (fc_Credits config) 0 then ((True, 0, None), st1)
           else case GetUserCredits userID st1 of
                  (Inl e, st2) \<Rightarrow> ((False, fc_Credits config, Some e), st2)
                | (Inr userCredits, st2) \<Rightarrow>
                    (if uc_Balance userCredits <s fc_Credits config
                     then ((False, fc_Credits config, None), st2)
                     else ((True, fc_Credits config, None), st2))))"

text \<open>
  For stating what the lookup resolves to: a stored path without the two pattern
  characters, and a rule that the inheritance applies to for a queried path, its path
  being a prefix of the queried one up to the case of ASCII letters.
\<close>

definition wildcard_free :: "string \<Rightarrow> bool" where
  "wildcard_free p = (CHR ''%'' \<notin> set p \<and> CHR ''_'' \<notin> set p)"

definition candidate :: "string \<Rightarrow> FileCreditsConfig \<Rightarrow> bool" where
  "candidate path r =
     (prefix (map ascii_lower (fc_Path r)) (map ascii_lower path) \<and> fc_IsFolder r \<and>
      fc_Inheritable r \<and> fc_Enabled r)"

section \<open>Redeem codes\<close>

definition db_GetRedeemCodeByCode :: "string \<Rightarrow> db \<Rightarrow> (error + RedeemCode) \<times> db" where
  "db_GetRedeemCodeByCode code st =
     (case stmt st of
        (True, st1) \<Rightarrow> (Inl ErrDB, st1)
      | (False, st1) \<Rightarrow>
          (case find (\<lambda>r. rc_Code r = code \<and> rc_Enabled r) (x_redeem_codes st1) of
             None \<Rightarrow> (Inl ErrRecordNotFound, st1)
           | Some r \<Rightarrow> (Inr r, st1)))"

definition db_UpdateRedeemCode :: "RedeemCode \<Rightarrow> db \<Rightarrow> (error + unit) \<times> db" where
  "db_UpdateRedeemCode code st =
     (case stmt st of
        (True, st1) \<Rightarrow> (Inl ErrDB, st1)
      | (False, st1) \<Rightarrow>
          (Inr (), st1\<lparr>x_redeem_codes := save_row rc_ID code (x_redeem_codes st1)\<rparr>))"

definition db_CreateRedeemCodeUsage :: "RedeemCodeUsage \<Rightarrow> db \<Rightarrow> (error + unit) \<times> db" where
  "db_CreateRedeemCodeUsage usage st =
     (case stmt st of
        (True, st1) \<Rightarrow> (Inl ErrDB, st1)
      | (False, st1) \<Rightarrow>
          (Inr (), st1\<lparr>x_redeem_code_usages := x_redeem_code_usages st1 @
             [usage\<lparr>ru_ID := fresh_id (map ru_ID (x_redeem_code_usages st1))\<rparr>]\<rparr>))"

definition RedeemCode_IsExpired :: "time \<Rightarrow> RedeemCode \<Rightarrow> bool" where
  "RedeemCode_IsExpired now rc =
     (case rc_ExpiresAt rc of None \<Rightarrow> False | Some t \<Rightarrow> t < now)"

definition RedeemCode_CanUse :: "time \<Rightarrow> RedeemCode \<Rightarrow> bool" where
  "RedeemCode_CanUse now rc =
     (rc_Enabled rc \<and> \<not> RedeemCode_IsExpired now rc \<and> rc_UsedCount rc < rc_MaxUses rc)"

text \<open>The bytes of the format string's Chinese prefix, in UTF-8, then \<open>": "\<close>.\<close>

definition redeem_reason :: "string \<Rightarrow> string" where
  "redeem_reason code =
     [CHR 0xE5, CHR 0x85, CHR 0x91, CHR 0xE6, CHR 0x8D, CHR 0xA2, CHR 0xE7, CHR 0xA0,
      CHR 0x81] @ '': '' @ code"

text \<open>
  \<open>RedeemCode(userID, code)\<close> reads the clock in \<open>CanUse\<close> and for \<open>UsedAt\<close>; both
  readings are the parameter \<open>now\<close>.
\<close>

definition RedeemCode :: "nat \<Rightarrow> string \<Rightarrow> time \<Rightarrow> db \<Rightarrow> (error + unit) \<times> db" where
  "RedeemCode userID code now st =
     (case db_GetRedeemCodeByCode code st of
        (Inl e, st1) \<Rightarrow>
          (if is_not_found e then (Inl (ErrNew CodeNotFound), st1)
           else (Inl (ErrWrap GetCodeFailed e), st1))
      | (Inr redeemCode0, st1) \<Rightarrow>
          (if \<not> RedeemCode_CanUse now redeemCode0 then (Inl (ErrNew CodeUnusable), st1)
           else
             let redeemCode = redeemCode0\<lparr>rc_UsedCount := rc_UsedCount redeemCode0 + 1\<rparr>
             in case db_UpdateRedeemCode redeemCode st1 of
                  (Inl e, st2) \<Rightarrow> (Inl (ErrWrap UpdateCodeFailed e), st2)
                | (Inr u, st2) \<Rightarrow>
                    (case db_CreateRedeemCodeUsage
                            \<lparr>ru_ID = 0, ru_RedeemCodeID = rc_ID redeemCode, ru_UserID = userID,
                             ru_Credits = rc_Credits redeemCode, ru_UsedAt = now\<rparr> st2 of
                       (Inl e, st3) \<Rightarrow> (Inl (ErrWrap RecordUsageFailed e), st3)
                     | (Inr u2, st3) \<Rightarrow>
                         (case AddCredits userID (rc_Credits redeemCode) (redeem_reason code)
                                 [] st3 of
                            (Inl e, st4) \<Rightarrow> (Inl (ErrWrap AddCreditsFailed e), st4)
                          | (Inr u3, st4) \<Rightarrow> (Inr (), st4)))))"

section \<open>Payment orders\<close>

definition db_GetPaymentOrderByOrderNo :: "string \<Rightarrow> db \<Rightarrow> (error + PaymentOrder) \<times> db" where
  "db_GetPaymentOrderByOrderNo orderNo st =
     (case stmt st of
        (True, st1) \<Rightarrow> (Inl ErrDB, st1)
      | (False, st1) \<Rightarrow>
          (case find (\<lambda>r. po_OrderNo r = orderNo) (x_payment_orders st1) of
             None \<Rightarrow> (Inl ErrRecordNotFound, st1)
           | Some r \<Rightarrow> (Inr r, st1)))"

definition db_UpdatePaymentOrder :: "PaymentOrder \<Rightarrow> db \<Rightarrow> (error + unit) \<times> db" where
  "db_UpdatePaymentOrder order st =
     (case stmt st of
        (True, st1) \<Rightarrow> (Inl ErrDB, st1)
      | (False, st1) \<Rightarrow>
          (Inr (), st1\<lparr>x_payment_orders := save_row po_ID order (x_payment_orders st1)\<rparr>))"

definition PaymentOrder_IsExpired :: "time \<Rightarrow> PaymentOrder \<Rightarrow> bool" where
  "PaymentOrder_IsExpired now po = (po_ExpiresAt po < now)"

definition PaymentOrder_IsPaid :: "PaymentOrder \<Rightarrow> bool" where
  "PaymentOrder_IsPaid po = (po_Status po = ''paid'')"

definition purchase_reason :: "string \<Rightarrow> string" where
  "purchase_reason orderNo =
     [CHR 0xE8, CHR 0xB4, CHR 0xAD, CHR 0xE4, CHR 0xB9, CHR 0xB0, CHR 0xE7, CHR 0xA7,
      CHR 0xAF, CHR 0xE5, CHR 0x88, CHR 0x86] @ '': '' @ orderNo"

text \<open>The payload \<open>{"transaction_id":"%s"}\<close>; \<open>CHR 0x22\<close> is the double quote.\<close>

definition transaction_payload :: "string \<Rightarrow> string" where
  "transaction_payload transactionID =
     [CHR ''{'', CHR 0x22] @ ''transaction_id'' @ [CHR 0x22, CHR '':'', CHR 0x22] @
     transactionID @ [CHR 0x22, CHR ''}'']"

text \<open>
  \<open>CompletePaymentOrder(orderNo, transactionID, amount, paidAt)\<close>: the \<open>float64\<close>
  parameter \<open>amount\<close> is never read by the body and is not a parameter here; \<open>now\<close> is
  the clock that \<open>IsExpired\<close> reads.
\<close>

definition CompletePaymentOrder ::
    "string \<Rightarrow> string \<Rightarrow> time \<Rightarrow> time \<Rightarrow> db \<Rightarrow> (error + unit) \<times> db" where
  "CompletePaymentOrder orderNo transactionID paidAt now st =
     (case db_GetPaymentOrderByOrderNo orderNo st of
        (Inl e, st1) \<Rightarrow> (Inl (ErrWrap GetOrderFailed e), st1)
      | (Inr order0, st1) \<Rightarrow>
          (if po_Status order0 \<noteq> ''pending'' then (Inl (ErrNew InvalidOrderState), st1)
           else if PaymentOrder_IsExpired now order0 then (Inl (ErrNew OrderExpired), st1)
           else
             let order = order0\<lparr>po_Status := ''completed'',
                                 po_PaymentData := transaction_payload transactionID,
                                 po_PaidAt := Some paidAt\<rparr>
             in case db_UpdatePaymentOrder order st1 of
                  (Inl e, st2) \<Rightarrow> (Inl (ErrWrap UpdateOrderFailed e), st2)
                | (Inr u, st2) \<Rightarrow>
                    (case AddCredits (po_UserID order) (po_Credits order)
                            (purchase_reason orderNo) orderNo st2 of
                       (Inl e, st3) \<Rightarrow> (Inl (ErrWrap AddCreditsFailed e), st3)
                     | (Inr u2, st3) \<Rightarrow> (Inr (), st3))))"

definition CancelPaymentOrder :: "string \<Rightarrow> nat \<Rightarrow> db \<Rightarrow> (error + unit) \<times> db" where
  "CancelPaymentOrder orderNo userID st =
     (case db_GetPaymentOrderByOrderNo orderNo st of
        (Inl e, st1) \<Rightarrow> (Inl (ErrWrap GetOrderFailed e), st1)
      | (Inr order0, st1) \<Rightarrow>
          (if po_Status order0 \<noteq> ''pending'' then (Inl (ErrNew InvalidOrderState), st1)
           else
             case db_UpdatePaymentOrder (order0\<lparr>po_Status := ''cancelled''\<rparr>) st1 of
               (Inl e, st2) \<Rightarrow> (Inl (ErrWrap UpdateOrderFailed e), st2)
             | (Inr u, st2) \<Rightarrow> (Inr (), st2)))"

section \<open>Payment notifications\<close>

text \<open>
  A decoded JSON value (\<open>interface{}\<close>): the handler and the adapter only tell a string
  from the rest, so a number carries no payload. The request is the \<open>provider\<close> path
  parameter, the result of \<open>ShouldBindJSON\<close> into a map (\<open>None\<close>: the body is not a
  JSON object) and the result of \<open>GetRawData\<close> (\<open>None\<close>: the body cannot be read).
\<close>

datatype jvalue =
    JString string | JNumber | JBool bool | JNull
  | JArray "jvalue list" | JObject "(string \<times> jvalue) list"

record request =
  rq_provider :: string
  rq_json :: "(string \<rightharpoonup> jvalue) option"
  rq_raw :: "string option"

datatype response =
    ErrorResp nat
  | StringResp nat string
  | XMLResp nat
  | JSONResp nat

definition notification_reply :: "string \<Rightarrow> response" where
  "notification_reply provider =
     (if provider = ''alipay'' then StringResp 200 ''success''
      else if provider = ''wechat'' then XMLResp 200
      else JSONResp 200)"

definition notification_complete ::
    "string \<Rightarrow> string \<Rightarrow> time \<Rightarrow> db \<Rightarrow> response \<times> db" where
  "notification_complete provider orderNo now st =
     (if orderNo \<noteq> []
      then case CompletePaymentOrder orderNo ''mock_transaction_id'' now now st of
             (Inl e, st1) \<Rightarrow> (ErrorResp 400, st1)
           | (Inr u, st1) \<Rightarrow> (notification_reply provider, st1)
      else (notification_reply provider, st))"

definition PaymentNotification :: "request \<Rightarrow> time \<Rightarrow> db \<Rightarrow> response \<times> db" where
  "PaymentNotification c now st =
     (let provider = rq_provider c in
      if provider = [] then (ErrorResp 400, st)
      else if provider = ''alipay'' then
        (case rq_json c of
           None \<Rightarrow> (ErrorResp 400, st)
         | Some paymentData \<Rightarrow>
             notification_complete provider
               (case paymentData ''out_trade_no'' of Some (JString outTradeNo) \<Rightarrow> outTradeNo
                | _ \<Rightarrow> []) now st)
      else if provider = ''wechat'' then
        (case rq_raw c of
           None \<Rightarrow> (ErrorResp 400, st)
         | Some body \<Rightarrow> notification_complete provider [] now st)
      else (ErrorResp 400, st))"

text \<open>
  The Alipay adapter's \<open>VerifyPayment\<close>. The RSA check \<open>verifyNotifySign\<close> and
  \<open>time.Parse\<close> are parameters; the \<open>float64\<close> amount of the result is left out.
\<close>

record PaymentVerification =
  pv_Success :: bool
  pv_OrderNo :: string
  pv_TransactionID :: string
  pv_PaidAt :: time

definition string_params :: "(string \<rightharpoonup> jvalue) \<Rightarrow> (string \<rightharpoonup> string)" where
  "string_params paymentData =
     (\<lambda>key. case paymentData key of Some (JString str) \<Rightarrow> Some str | _ \<Rightarrow> None)"

definition param :: "(string \<rightharpoonup> string) \<Rightarrow> string \<Rightarrow> string" where
  "param m key = (case m key of None \<Rightarrow> [] | Some v \<Rightarrow> v)"

definition AlipayProvider_VerifyPayment ::
    "((string \<rightharpoonup> string) \<Rightarrow> bool) \<Rightarrow> (string \<Rightarrow> time option) \<Rightarrow> string \<Rightarrow>
     (string \<rightharpoonup> jvalue) \<Rightarrow> time \<Rightarrow> error + PaymentVerification" where
  "AlipayProvider_VerifyPayment verifyNotifySign parse_time orderNo paymentData now =
     (let notifyParams = string_params paymentData in
      if \<not> verifyNotifySign notifyParams then Inl (ErrNew InvalidSignature)
      else
        let tradeStatus = param notifyParams ''trade_status'' in
        if tradeStatus \<noteq> ''TRADE_SUCCESS'' \<and> tradeStatus \<noteq> ''TRADE_FINISHED''
        then Inl (ErrNew PaymentNotSuccessful)
        else Inr \<lparr>pv_Success = True,
                  pv_OrderNo = param notifyParams ''out_trade_no'',
                  pv_TransactionID = param notifyParams ''trade_no'',
                  pv_PaidAt = (case notifyParams ''gmt_payment'' of
                                 None \<Rightarrow> now
                               | Some gmtPayment \<Rightarrow>
                                   (case parse_time gmtPayment of None \<Rightarrow> now | Some t \<Rightarrow> t))\<rparr>)"

section \<open>Registration approval\<close>

definition db_GetUserRegistrationByToken ::
    "string \<Rightarrow> db \<Rightarrow> (error + UserRegistration) \<times> db" where
  "db_GetUserRegistrationByToken token st =
     (case stmt st of
        (True, st1) \<Rightarrow> (Inl ErrDB, st1)
      | (False, st1) \<Rightarrow>
          (case find (\<lambda>r. ur_Token r = token \<and> ur_Status r = 0) (x_user_registrations st1) of
             None \<Rightarrow> (Inl ErrRecordNotFound, st1)
           | Some r \<Rightarrow> (Inr r, st1)))"

definition db_UpdateUserRegistration :: "UserRegistration \<Rightarrow> db \<Rightarrow> (error + unit) \<times> db" where
  "db_UpdateUserRegistration registration st =
     (case stmt st of
        (True, st1) \<Rightarrow> (Inl ErrDB, st1)
      | (False, st1) \<Rightarrow>
          (Inr (), st1\<lparr>x_user_registrations :=
                          save_row ur_ID registration (x_user_registrations st1)\<rparr>))"

text \<open>
  \<open>model.User\<close>, \<open>op.CreateUser\<close> and the role constant \<open>model.GENERAL\<close> are declared
  outside the files at hand: the record has the fields that \<open>ApproveUserRegistration\<close>
  sets, and \<open>CreateUser\<close> and \<open>GENERAL\<close> are parameters of the operation.
\<close>

record User =
  us_ID :: nat
  us_Username :: string
  us_PwdHash :: string
  us_Salt :: string
  us_BasePath :: string
  us_Role :: int
  us_Disabled :: bool
  us_Permission :: int

definition ApproveUserRegistration ::
    "(User \<Rightarrow> db \<Rightarrow> (error + User) \<times> db) \<Rightarrow> int \<Rightarrow> nat \<Rightarrow> db \<Rightarrow> (error + User) \<times> db" where
  "ApproveUserRegistration CreateUser GENERAL registrationID st =
     (case db_GetUserRegistrationByToken [] st of
        (Inl e, st1) \<Rightarrow> (Inl (ErrWrap GetRegistrationFailed e), st1)
      | (Inr registration, st1) \<Rightarrow>
          (if ur_Status registration \<noteq> 1 then (Inl (ErrNew RegistrationNotVerified), st1)
           else
             case CreateUser \<lparr>us_ID = 0, us_Username = ur_Username registration,
                               us_PwdHash = ur_PwdHash registration,
                               us_Salt = ur_Salt registration, us_BasePath = ''/'',
                               us_Role = GENERAL, us_Disabled = False, us_Permission = 0\<rparr>
                    st1 of
               (Inl e, st2) \<Rightarrow> (Inl (ErrWrap CreateUserFailed e), st2)
             | (Inr user, st2) \<Rightarrow>
                 (case db_CreateUserCredits
                         \<lparr>uc_ID = 0, uc_UserID = us_ID user, uc_Balance = 0,
                          uc_TotalEarn = 0, uc_TotalSpent = 0\<rparr> st2 of
                    (Inl e, st3) \<Rightarrow> (Inl (ErrWrap CreateCreditsAccountFailed e), st3)
                  | (Inr credits, st3) \<Rightarrow>
                      (case db_UpdateUserRegistration (registration\<lparr>ur_Status := 2\<rparr>) st3 of
                         (Inl e, st4) \<Rightarrow> (Inl (ErrWrap UpdateRegistrationFailed e), st4)
                       | (Inr u, st4) \<Rightarrow> (Inr user, st4)))))"


section \<open>Observing the ledger\<close>

text \<open>
  What a client sees of one user's ledger: the account row that every lookup by user
  returns (the first with this \<open>user_id\<close>), its balance and cumulative counters (zero
  while the account, created lazily with zero balance, does not exist yet), and the sum of
  the amounts of the user's transactions. \<open>keys_ok\<close> says that the primary key of the
  account table identifies a row.
\<close>

definition account_of :: "db \<Rightarrow> nat \<Rightarrow> UserCredits option" where
  "account_of st u = find (\<lambda>r. uc_UserID r = u) (x_user_credits st)"

definition balance_of :: "db \<Rightarrow> nat \<Rightarrow> int64" where
  "balance_of st u = (case account_of st u of None \<Rightarrow> 0 | Some r \<Rightarrow> uc_Balance r)"

definition spent_of :: "db \<Rightarrow> nat \<Rightarrow> int64" where
  "spent_of st u = (case account_of st u of None \<Rightarrow> 0 | Some r \<Rightarrow> uc_TotalSpent r)"

definition earned_of :: "db \<Rightarrow> nat \<Rightarrow> int64" where
  "earned_of st u = (case account_of st u of None \<Rightarrow> 0 | Some r \<Rightarrow> uc_TotalEarn r)"

definition tx_sum :: "db \<Rightarrow> nat \<Rightarrow> int64" where
  "tx_sum st u =
     sum_list (map ct_Amount (filter (\<lambda>t. ct_UserID t = u) (x_credit_transactions st)))"

definition keys_ok :: "db \<Rightarrow> bool" where
  "keys_ok st = distinct (map uc_ID (x_user_credits st))"

definition order_of :: "db \<Rightarrow> string \<Rightarrow> PaymentOrder option" where
  "order_of st orderNo = find (\<lambda>r. po_OrderNo r = orderNo) (x_payment_orders st)"

definition enabled_code :: "db \<Rightarrow> string \<Rightarrow> RedeemCode option" where
  "enabled_code st code = find (\<lambda>r. rc_Code r = code \<and> rc_Enabled r) (x_redeem_codes st)"

definition orders_ok :: "db \<Rightarrow> bool" where
  "orders_ok st = distinct (map po_ID (x_payment_orders st))"

text \<open>The ledger operations touch the account and transaction tables only.\<close>

definition ledger_only :: "db \<Rightarrow> db \<Rightarrow> bool" where
  "ledger_only st st' =
     (x_file_credits_configs st' = x_file_credits_configs st \<and>
      x_redeem_codes st' = x_redeem_codes st \<and>
      x_redeem_code_usages st' = x_redeem_code_usages st \<and>
      x_payment_orders st' = x_payment_orders st \<and>
      x_user_registrations st' = x_user_registrations st)"

text \<open>Whether the next statement sent to the database fails.\<close>

definition next_fails :: "db \<Rightarrow> bool" where
  "next_fails st = fst (stmt st)"

section \<open>The statements of two debits, interleaved\<close>

text \<open>
  \<open>DeductCredits\<close> sends its statements one by one, outside any database transaction and
  without a lock: the read of the account with the balance test on the row read, then the
  write of the changed row and the insert of the transaction. \<open>Deduct_check\<close> and
  \<open>Deduct_commit\<close> are these two parts of the body, the row read being the local
  variable \<open>credits\<close> that the first hands to the second. Two requests running
  \<open>DeductCredits\<close> on separate workers can be served by the database with the read of
  the second between the read and the write of the first.
\<close>

definition Deduct_check :: "nat \<Rightarrow> int64 \<Rightarrow> db \<Rightarrow> (error + UserCredits) \<times> db" where
  "Deduct_check userID amount st =
     (case GetUserCredits userID st of
        (Inl e, st1) \<Rightarrow> (Inl e, st1)
      | (Inr credits0, st1) \<Rightarrow>
          (if uc_Balance credits0 <s amount then (Inl (ErrNew InsufficientBalance), st1)
           else (Inr credits0, st1)))"

definition Deduct_commit ::
    "error + UserCredits \<Rightarrow> nat \<Rightarrow> int64 \<Rightarrow> string \<Rightarrow> string \<Rightarrow> db \<Rightarrow> (error + unit) \<times> db" where
  "Deduct_commit checked userID amount reason fileID st1 =
     (case checked of
        Inl e \<Rightarrow> (Inl e, st1)
      | Inr credits0 \<Rightarrow>
          (let credits = credits0\<lparr>uc_Balance := uc_Balance credits0 - amount,
                                   uc_TotalSpent := uc_TotalSpent credits0 + amount\<rparr>
           in case db_UpdateUserCredits credits st1 of
                (Inl e, st2) \<Rightarrow> (Inl (ErrWrap UpdateAccountFailed e), st2)
              | (Inr u, st2) \<Rightarrow>
                  (case db_CreateCreditTransaction
                          \<lparr>ct_ID = 0, ct_UserID = userID, ct_Type = ''spend'',
                           ct_Amount = - amount, ct_Balance = uc_Balance credits,
                           ct_Source = ''download'', ct_SourceID = fileID,
                           ct_Description = reason\<rparr> st2 of
                     (Inl e, st3) \<Rightarrow> (Inl (ErrWrap RecordTransactionFailed e), st3)
                   | (Inr u2, st3) \<Rightarrow> (Inr (), st3))))"

text \<open>Two debits of one user: one after the other, and with both reads first.\<close>

definition debits_sequential ::
    "nat \<Rightarrow> int64 \<Rightarrow> string \<Rightarrow> string \<Rightarrow> db \<Rightarrow> ((error + unit) \<times> (error + unit)) \<times> db" where
  "debits_sequential userID amount reason fileID st =
     (case DeductCredits userID amount reason fileID st of
        (r1, st1) \<Rightarrow>
          (case DeductCredits userID amount reason fileID st1 of
             (r2, st2) \<Rightarrow> ((r1, r2), st2)))"

definition debits_interleaved ::
    "nat \<Rightarrow> int64 \<Rightarrow> string \<Rightarrow> string \<Rightarrow> db \<Rightarrow> ((error + unit) \<times> (error + unit)) \<times> db" where
  "debits_interleaved userID amount reason fileID st =
     (case Deduct_check userID amount st of
        (c1, st1) \<Rightarrow>
          (case Deduct_check userID amount st1 of
             (c2, st2) \<Rightarrow>
               (case Deduct_commit c1 userID amount reason fileID st2 of
                  (r1, st3) \<Rightarrow>
                    (case Deduct_commit c2 userID amount reason fileID st3 of
                       (r2, st4) \<Rightarrow> ((r1, r2), st4)))))"

section \<open>Example states\<close>

definition empty_db :: db where
  "empty_db = \<lparr>x_user_credits = [], x_credit_transactions = [], x_file_credits_configs = [],
     x_redeem_codes = [], x_redeem_code_usages = [], x_payment_orders = [],
     x_user_registrations = [], faults = []\<rparr>"

text \<open>User 7 holds 100 credits, granted by one earlier transaction.\<close>

definition ledger_example :: db where
  "ledger_example = empty_db
     \<lparr>x_user_credits := [\<lparr>uc_ID = 1, uc_UserID = 7, uc_Balance = 100, uc_TotalEarn = 100,
                           uc_TotalSpent = 0\<rparr>],
      x_credit_transactions := [\<lparr>ct_ID = 1, ct_UserID = 7, ct_Type = ''earn'',
                                  ct_Amount = 100, ct_Balance = 100, ct_Source = ''admin'',
                                  ct_SourceID = [], ct_Description = ''admin''\<rparr>]\<rparr>"

text \<open>
  The same ledger when the first two statements to come are served and the third fails.
\<close>

definition insert_fails_example :: db where
  "insert_fails_example = ledger_example\<lparr>faults := [False, False, True]\<rparr>"

text \<open>User 7 has a pending order \<open>OL1\<close> for 500 credits that expires at instant 1800.\<close>

definition order_example :: db where
  "order_example = ledger_example
     \<lparr>x_payment_orders := [\<lparr>po_ID = 1, po_OrderNo = ''OL1'', po_UserID = 7, po_Credits = 500,
                             po_Amount = 500, po_Currency = ''CNY'',
                             po_PaymentMethod = ''alipay'', po_Status = ''pending'',
                             po_PaidAt = None, po_ExpiresAt = 1800, po_PaymentData = []\<rparr>]\<rparr>"

text \<open>
  The rules of the specification's example: an inheritable folder rule at \<open>/a\<close> with 5
  credits and a rule for \<open>/a/b\<close> alone with 2 credits.
\<close>

definition pricing_example :: db where
  "pricing_example = empty_db
     \<lparr>x_file_credits_configs :=
        [\<lparr>fc_ID = 1, fc_Path = ''/a'', fc_IsFolder = True, fc_Credits = 5,
          fc_Inheritable = True, fc_Enabled = True, fc_CreatedBy = 1\<rparr>,
         \<lparr>fc_ID = 2, fc_Path = ''/a/b'', fc_IsFolder = False, fc_Credits = 2,
          fc_Inheritable = False, fc_Enabled = True, fc_CreatedBy = 1\<rparr>]\<rparr>"

text \<open>One inheritable folder rule, at \<open>/my_files\<close>, with 7 credits.\<close>

definition underscore_example :: db where
  "underscore_example = empty_db
     \<lparr>x_file_credits_configs :=
        [\<lparr>fc_ID = 1, fc_Path = ''/my_files'', fc_IsFolder = True, fc_Credits = 7,
          fc_Inheritable = True, fc_Enabled = True, fc_CreatedBy = 1\<rparr>]\<rparr>"

text \<open>
  Three redeem codes worth 10 credits: \<open>OLOFF\<close> is disabled, \<open>OLUSED\<close> is used up,
  \<open>OLGOOD\<close> can be used once more.
\<close>

definition redeem_example :: db where
  "redeem_example = ledger_example
     \<lparr>x_redeem_codes :=
        [\<lparr>rc_ID = 1, rc_Code = ''OLOFF'', rc_Credits = 10, rc_MaxUses = 1, rc_UsedCount = 0,
          rc_Enabled = False, rc_ExpiresAt = None, rc_CreatedBy = 1, rc_Description = []\<rparr>,
         \<lparr>rc_ID = 2, rc_Code = ''OLUSED'', rc_Credits = 10, rc_MaxUses = 1, rc_UsedCount = 1,
          rc_Enabled = True, rc_ExpiresAt = None, rc_CreatedBy = 1, rc_Description = []\<rparr>,
         \<lparr>rc_ID = 3, rc_Code = ''OLGOOD'', rc_Credits = 10, rc_MaxUses = 1, rc_UsedCount = 0,
          rc_Enabled = True, rc_ExpiresAt = None, rc_CreatedBy = 1, rc_Description = []\<rparr>]\<rparr>"




text \<open>A notification for \<open>OL1\<close> that carries no signature at all.\<close>

definition unsigned_notification :: request where
  "unsigned_notification =
     \<lparr>rq_provider = ''alipay'',
      rq_json = Some [''out_trade_no'' \<mapsto> JString ''OL1''],
      rq_raw = None\<rparr>"

section \<open>Rows and keys\<close>

lemma stmt_tables:
  assumes "stmt st = (f, st1)"
  shows "x_user_credits st1 = x_user_credits st"
    and "x_credit_transactions st1 = x_credit_transactions st"
    and "x_payment_orders st1 = x_payment_orders st"
    and "x_redeem_codes st1 = x_redeem_codes st"
    and "x_redeem_code_usages st1 = x_redeem_code_usages st"
    and "x_file_credits_configs st1 = x_file_credits_configs st"
    and "x_user_registrations st1 = x_user_registrations st"
  using assms by (auto simp: stmt_def split: list.splits)

lemma stmt_nofault:
  assumes "stmt st = (f, st1)" "faults st = []"
  shows "\<not> f" "st1 = st"
  using assms by (auto simp: stmt_def split: list.splits)

lemma fold_max_ge: "a \<le> fold max ids (a::nat)"
  by (induction ids arbitrary: a) (auto intro: order_trans [OF max.cobounded2])

lemma fold_max_mem: "x \<in> set ids \<Longrightarrow> x \<le> fold max ids (a::nat)"
proof (induction ids arbitrary: a)
  case Nil
  then show ?case by simp
next
  case (Cons y ys)
  show ?case
  proof (cases "x = y")
    case True
    have "y \<le> max y a" by simp
    also have "\<dots> \<le> fold max ys (max y a)" by (rule fold_max_ge)
    finally show ?thesis using True by simp
  next
    case False
    with Cons show ?thesis by simp
  qed
qed

lemma fresh_id_new: "fresh_id ids \<notin> set ids"
  using fold_max_mem [of "fresh_id ids" ids 0] by (auto simp: fresh_id_def)

lemma find_append_last:
  "find P (xs @ [c]) = (case find P xs of Some r \<Rightarrow> Some r | None \<Rightarrow> if P c then Some c else None)"
  by (induction xs) auto

lemma find_save_same:
  assumes "distinct (map key rows)" "find P rows = Some c" "key c' = key c" "P c'"
  shows "find P (save_row key c' rows) = Some c'"
proof -
  have mem: "c \<in> set rows" using assms(2) by (auto simp: find_Some_iff)
  have "find P (map (\<lambda>x. if key x = key c then c' else x) rows) = Some c'"
    using assms(1,2)
  proof (induction rows)
    case Nil
    then show ?case by simp
  next
    case (Cons x xs)
    show ?case
    proof (cases "P x")
      case True
      with Cons.prems have "x = c" by simp
      with assms(4) show ?thesis by simp
    next
      case False
      with Cons.prems have f: "find P xs = Some c" by simp
      then have "c \<in> set xs" by (auto simp: find_Some_iff)
      with Cons.prems(1) have "key x \<noteq> key c" by force
      with False Cons.IH f Cons.prems(1) show ?thesis by simp
    qed
  qed
  with mem assms(3) show ?thesis by (auto simp: save_row_def)
qed

lemma find_map_replace_other:
  assumes "distinct (map key rows)" "c \<in> set rows" "\<not> Q c" "\<not> Q c'"
  shows "find Q (map (\<lambda>x. if key x = key c then c' else x) rows) = find Q rows"
  using assms(1,2)
proof (induction rows)
  case Nil
  then show ?case by simp
next
  case (Cons x xs)
  show ?case
  proof (cases "x = c")
    case True
    with Cons.prems(1) have "\<forall>y \<in> set xs. key y \<noteq> key c" by (fastforce simp: image_iff)
    then have "map (\<lambda>x. if key x = key c then c' else x) xs = xs"
      by (simp add: map_idI)
    with True assms(3,4) show ?thesis by simp
  next
    case False
    with Cons.prems have "c \<in> set xs" "key x \<noteq> key c" by force+
    with Cons.IH Cons.prems(1) show ?thesis by simp
  qed
qed

lemma find_save_other:
  assumes "distinct (map key rows)" "find P rows = Some c" "key c' = key c" "P c'"
    and "\<And>x. P x \<Longrightarrow> \<not> Q x"
  shows "find Q (save_row key c' rows) = find Q rows"
proof -
  have mem: "c \<in> set rows" and "P c" using assms(2) by (auto simp: find_Some_iff)
  then have "\<not> Q c" "\<not> Q c'" using assms(4,5) by blast+
  with assms(1) mem
  have "find Q (map (\<lambda>x. if key x = key c then c' else x) rows) = find Q rows"
    by (rule find_map_replace_other)
  with mem assms(3) show ?thesis by (auto simp: save_row_def)
qed

lemma distinct_save_row:
  assumes "distinct (map key rows)" "c \<in> set rows" "key c' = key c"
  shows "distinct (map key (save_row key c' rows))"
proof -
  have eq: "map key (map (\<lambda>x. if key x = key c then c' else x) rows) = map key rows"
    using assms(3) by (induction rows) auto
  have "save_row key c' rows = map (\<lambda>x. if key x = key c then c' else x) rows"
    using assms(2,3) by (auto simp: save_row_def)
  with eq assms(1) show ?thesis by (simp del: map_map)
qed

lemma db_Get_cases:
  assumes "db_GetUserCreditsByUserID u st = (r, st1)"
  shows "x_user_credits st1 = x_user_credits st"
    and "x_credit_transactions st1 = x_credit_transactions st"
    and "r = Inr c \<Longrightarrow> account_of st u = Some c"
    and "r = Inl e \<Longrightarrow> is_not_found e \<Longrightarrow> account_of st u = None"
    and "faults st = [] \<Longrightarrow> faults st1 = [] \<and> r = (case account_of st u of None \<Rightarrow> Inl ErrRecordNotFound | Some c \<Rightarrow> Inr c)"
  using assms
  by (auto simp: db_GetUserCreditsByUserID_def account_of_def
      split: prod.splits bool.splits option.splits dest: stmt_tables stmt_nofault)

lemma db_Create_cases:
  assumes "db_CreateUserCredits credits st = (r, st1)"
  shows "x_credit_transactions st1 = x_credit_transactions st"
    and "r = Inl e \<Longrightarrow> x_user_credits st1 = x_user_credits st"
    and "r = Inr c \<Longrightarrow> c = credits\<lparr>uc_ID := fresh_id (map uc_ID (x_user_credits st))\<rparr>
          \<and> x_user_credits st1 = x_user_credits st @ [c]"
    and "faults st = [] \<Longrightarrow> account_of st (uc_UserID credits) = None \<Longrightarrow> faults st1 = [] \<and> (\<exists>c. r = Inr c)"
  using assms
  by (auto simp: db_CreateUserCredits_def account_of_def Let_def find_None_iff
      split: prod.splits bool.splits if_splits dest: stmt_tables stmt_nofault)

lemma CreateUserCredits_cases:
  assumes "CreateUserCredits u st = (r, st1)" "account_of st u = None"
  shows "x_credit_transactions st1 = x_credit_transactions st"
    and "r = Inl e \<Longrightarrow> x_user_credits st1 = x_user_credits st"
    and "r = Inr c \<Longrightarrow> c = \<lparr>uc_ID = fresh_id (map uc_ID (x_user_credits st)), uc_UserID = u, uc_Balance = 0, uc_TotalEarn = 0, uc_TotalSpent = 0\<rparr>
          \<and> x_user_credits st1 = x_user_credits st @ [c]"
    and "faults st = [] \<Longrightarrow> faults st1 = [] \<and> (\<exists>c. r = Inr c)"
proof -
  obtain r1 s1 where g: "db_GetUserCreditsByUserID u st = (r1, s1)" by force
  obtain r2 s2 where c: "db_CreateUserCredits \<lparr>uc_ID = 0, uc_UserID = u, uc_Balance = 0, uc_TotalEarn = 0,
                   uc_TotalSpent = 0\<rparr> s1 = (r2, s2)" by force
  from db_Get_cases(3) [OF g] assms(2) obtain e1 where r1: "r1 = Inl e1" by (cases r1) auto
  have acc1: "account_of s1 u = None" using assms(2) db_Get_cases(1) [OF g] by (simp add: account_of_def)
  from assms(1) g c r1 have res: "st1 = s2" "r = (case r2 of Inl e2 \<Rightarrow> Inl (ErrWrap CreateAccountFailed e2) | Inr x \<Rightarrow> Inr x)"
    by (auto simp: CreateUserCredits_def split: sum.splits)
  show "x_credit_transactions st1 = x_credit_transactions st"
    using res db_Get_cases(2) [OF g] db_Create_cases(1) [OF c] by simp
  show "r = Inl e \<Longrightarrow> x_user_credits st1 = x_user_credits st"
    using res db_Get_cases(1) [OF g] db_Create_cases(2) [OF c] by (auto split: sum.splits)
  show "r = Inr c \<Longrightarrow> c = \<lparr>uc_ID = fresh_id (map uc_ID (x_user_credits st)), uc_UserID = u, uc_Balance = 0, uc_TotalEarn = 0, uc_TotalSpent = 0\<rparr>
          \<and> x_user_credits st1 = x_user_credits st @ [c]"
    using res db_Get_cases(1) [OF g] db_Create_cases(3) [OF c] by (auto split: sum.splits)
  show "faults st = [] \<Longrightarrow> faults st1 = [] \<and> (\<exists>c. r = Inr c)"
    using res db_Get_cases(5) [OF g] db_Create_cases(4) [OF c] acc1 by (auto split: sum.splits)
qed

lemma GetUserCredits_cases:
  assumes "GetUserCredits u st = (r, st1)"
  shows "x_credit_transactions st1 = x_credit_transactions st"
    and "r = Inl e \<Longrightarrow> x_user_credits st1 = x_user_credits st"
    and "r = Inr c \<Longrightarrow>
           (account_of st u = Some c \<and> x_user_credits st1 = x_user_credits st) \<or>
           (account_of st u = None \<and>
            c = \<lparr>uc_ID = fresh_id (map uc_ID (x_user_credits st)), uc_UserID = u,
                 uc_Balance = 0, uc_TotalEarn = 0, uc_TotalSpent = 0\<rparr> \<and>
            x_user_credits st1 = x_user_credits st @ [c])"
    and "faults st = [] \<Longrightarrow> faults st1 = [] \<and> (\<exists>c. r = Inr c)"
proof -
  obtain r1 s1 where g: "db_GetUserCreditsByUserID u st = (r1, s1)" by force
  obtain r2 s2 where c: "CreateUserCredits u s1 = (r2, s2)" by force
  note G = db_Get_cases [OF g]
  have acc: "account_of s1 u = account_of st u" using G(1) by (simp add: account_of_def)
  show "x_credit_transactions st1 = x_credit_transactions st"
  proof (cases r1)
    case (Inl e1)
    then have "account_of s1 u = None \<or> \<not> is_not_found e1" using G(4) acc by auto
    with assms g c Inl G(2) CreateUserCredits_cases(1) [OF c] show ?thesis
      by (auto simp: GetUserCredits_def split: if_splits)
  next
    case (Inr c1)
    with assms g G(2) show ?thesis by (auto simp: GetUserCredits_def)
  qed
  show "r = Inl e \<Longrightarrow> x_user_credits st1 = x_user_credits st"
  proof (cases r1)
    case (Inl e1)
    assume "r = Inl e"
    with assms g c Inl G(1,4) acc CreateUserCredits_cases(2) [OF c] show ?thesis
      by (auto simp: GetUserCredits_def split: if_splits)
  next
    case (Inr c1)
    with assms g G(1) show ?thesis by (auto simp: GetUserCredits_def)
  qed
  show "r = Inr c \<Longrightarrow>
           (account_of st u = Some c \<and> x_user_credits st1 = x_user_credits st) \<or>
           (account_of st u = None \<and>
            c = \<lparr>uc_ID = fresh_id (map uc_ID (x_user_credits st)), uc_UserID = u,
                 uc_Balance = 0, uc_TotalEarn = 0, uc_TotalSpent = 0\<rparr> \<and>
            x_user_credits st1 = x_user_credits st @ [c])"
  proof (cases r1)
    case (Inl e1)
    assume "r = Inr c"
    with assms g c Inl G(1,4) acc CreateUserCredits_cases(3) [OF c] show ?thesis
      by (auto simp: GetUserCredits_def split: if_splits)
  next
    case (Inr c1)
    assume "r = Inr c"
    with Inr assms g G(1,3) show ?thesis by (auto simp: GetUserCredits_def)
  qed
  show "faults st = [] \<Longrightarrow> faults st1 = [] \<and> (\<exists>c. r = Inr c)"
  proof (cases r1)
    case (Inl e1)
    assume nf: "faults st = []"
    with G(5) Inl have "account_of st u = None" "faults s1 = []" "e1 = ErrRecordNotFound"
      by (auto split: option.splits)
    with assms g c Inl acc CreateUserCredits_cases(4) [OF c] show ?thesis
      by (auto simp: GetUserCredits_def split: if_splits)
  next
    case (Inr c1)
    assume nf: "faults st = []"
    with Inr assms g G(5) show ?thesis by (auto simp: GetUserCredits_def split: option.splits)
  qed
qed

lemma account_of_append:
  "x_user_credits st1 = x_user_credits st @ [c] \<Longrightarrow>
   account_of st1 v = (case account_of st v of Some r \<Rightarrow> Some r
                       | None \<Rightarrow> if uc_UserID c = v then Some c else None)"
  by (simp add: account_of_def find_append_last)

lemma GetUserCredits_views:
  assumes "GetUserCredits u st = (r, st1)"
  shows "balance_of st1 v = balance_of st v"
    and "spent_of st1 v = spent_of st v"
    and "earned_of st1 v = earned_of st v"
    and "keys_ok st \<Longrightarrow> keys_ok st1"
    and "r = Inr c \<Longrightarrow> account_of st1 u = Some c \<and> uc_UserID c = u \<and>
           uc_Balance c = balance_of st u \<and> uc_TotalSpent c = spent_of st u \<and>
           uc_TotalEarn c = earned_of st u"
    and "r = Inr c \<Longrightarrow> v \<noteq> u \<Longrightarrow> account_of st1 v = account_of st v"
proof -
  note G = GetUserCredits_cases [OF assms]
  have same: "x_user_credits st1 = x_user_credits st \<Longrightarrow> account_of st1 = account_of st"
    by (auto simp: account_of_def)
  show "balance_of st1 v = balance_of st v"
  proof (cases r)
    case (Inl e)
    with G(2) same show ?thesis by (simp add: balance_of_def)
  next
    case (Inr c)
    with G(3) [OF Inr] same show ?thesis
      by (auto simp: balance_of_def account_of_append split: option.splits if_splits)
  qed
  show "spent_of st1 v = spent_of st v"
  proof (cases r)
    case (Inl e)
    with G(2) same show ?thesis by (simp add: spent_of_def)
  next
    case (Inr c)
    with G(3) [OF Inr] same show ?thesis
      by (auto simp: spent_of_def account_of_append split: option.splits if_splits)
  qed
  show "earned_of st1 v = earned_of st v"
  proof (cases r)
    case (Inl e)
    with G(2) same show ?thesis by (simp add: earned_of_def)
  next
    case (Inr c)
    with G(3) [OF Inr] same show ?thesis
      by (auto simp: earned_of_def account_of_append split: option.splits if_splits)
  qed
  show "keys_ok st \<Longrightarrow> keys_ok st1"
  proof (cases r)
    case (Inl e)
    assume "keys_ok st"
    with G(2) Inl show ?thesis by (simp add: keys_ok_def)
  next
    case (Inr c)
    assume "keys_ok st"
    with G(3) [OF Inr] fresh_id_new [of "map uc_ID (x_user_credits st)"] show ?thesis
      by (auto simp: keys_ok_def)
  qed
  show "r = Inr c \<Longrightarrow> account_of st1 u = Some c \<and> uc_UserID c = u \<and>
           uc_Balance c = balance_of st u \<and> uc_TotalSpent c = spent_of st u \<and>
           uc_TotalEarn c = earned_of st u"
  proof -
    assume r: "r = Inr c"
    from G(3) [OF r] show ?thesis
    proof
      assume a: "account_of st u = Some c \<and> x_user_credits st1 = x_user_credits st"
      then have "uc_UserID c = u" by (auto simp: account_of_def find_Some_iff)
      with a same show ?thesis by (simp add: balance_of_def spent_of_def earned_of_def)
    next
      assume a: "account_of st u = None \<and>
            c = \<lparr>uc_ID = fresh_id (map uc_ID (x_user_credits st)), uc_UserID = u,
                 uc_Balance = 0, uc_TotalEarn = 0, uc_TotalSpent = 0\<rparr> \<and>
            x_user_credits st1 = x_user_credits st @ [c]"
      then have "uc_UserID c = u" "uc_Balance c = 0" "uc_TotalSpent c = 0" "uc_TotalEarn c = 0" by auto
      with a show ?thesis
        by (simp add: balance_of_def spent_of_def earned_of_def account_of_append)
    qed
  qed
  show "r = Inr c \<Longrightarrow> v \<noteq> u \<Longrightarrow> account_of st1 v = account_of st v"
  proof -
    assume r: "r = Inr c" and v: "v \<noteq> u"
    from G(3) [OF r] show ?thesis
    proof
      assume "account_of st u = Some c \<and> x_user_credits st1 = x_user_credits st"
      with same show ?thesis by simp
    next
      assume a: "account_of st u = None \<and>
            c = \<lparr>uc_ID = fresh_id (map uc_ID (x_user_credits st)), uc_UserID = u,
                 uc_Balance = 0, uc_TotalEarn = 0, uc_TotalSpent = 0\<rparr> \<and>
            x_user_credits st1 = x_user_credits st @ [c]"
      then have "uc_UserID c = u" by auto
      with a v show ?thesis by (auto simp: account_of_append split: option.splits)
    qed
  qed
qed

lemma db_Update_cases:
  assumes "db_UpdateUserCredits credits st = (r, st1)"
  shows "x_credit_transactions st1 = x_credit_transactions st"
    and "r = Inl e \<Longrightarrow> x_user_credits st1 = x_user_credits st"
    and "r = Inr x \<Longrightarrow> x_user_credits st1 = save_row uc_ID credits (x_user_credits st)"
    and "faults st = [] \<Longrightarrow> faults st1 = [] \<and> r = Inr ()"
  using assms
  by (auto simp: db_UpdateUserCredits_def split: prod.splits bool.splits
      dest: stmt_tables stmt_nofault)

lemma db_CreateTx_cases:
  assumes "db_CreateCreditTransaction t st = (r, st1)"
  shows "x_user_credits st1 = x_user_credits st"
    and "r = Inl e \<Longrightarrow> x_credit_transactions st1 = x_credit_transactions st"
    and "r = Inr x \<Longrightarrow> x_credit_transactions st1 = x_credit_transactions st @
           [t\<lparr>ct_ID := fresh_id (map ct_ID (x_credit_transactions st))\<rparr>]"
    and "faults st = [] \<Longrightarrow> faults st1 = [] \<and> r = Inr ()"
  using assms
  by (auto simp: db_CreateCreditTransaction_def split: prod.splits bool.splits
      dest: stmt_tables stmt_nofault)

lemma account_of_save:
  assumes "keys_ok st" "account_of st u = Some c" "uc_ID c' = uc_ID c" "uc_UserID c' = u"
    and "x_user_credits st1 = save_row uc_ID c' (x_user_credits st)"
  shows "account_of st1 u = Some c'"
    and "v \<noteq> u \<Longrightarrow> account_of st1 v = account_of st v"
    and "keys_ok st1"
proof -
  have d: "distinct (map uc_ID (x_user_credits st))" using assms(1) by (simp add: keys_ok_def)
  have f: "find (\<lambda>r. uc_UserID r = u) (x_user_credits st) = Some c"
    using assms(2) by (simp add: account_of_def)
  show "account_of st1 u = Some c'"
    using find_save_same [OF d f assms(3)] assms(4,5) by (simp add: account_of_def)
  show "v \<noteq> u \<Longrightarrow> account_of st1 v = account_of st v"
    using find_save_other [OF d f assms(3), of "\<lambda>r. uc_UserID r = v"] assms(4,5)
    by (simp add: account_of_def)
  have "c \<in> set (x_user_credits st)" using f by (auto simp: find_Some_iff)
  with d assms(3,5) show "keys_ok st1" by (simp add: keys_ok_def distinct_save_row)
qed

lemma GetUserCredits_error:
  assumes "GetUserCredits u st = (Inl e, st1)"
  shows "\<exists>c e'. e = ErrWrap c e'"
  using assms
  by (auto simp: GetUserCredits_def CreateUserCredits_def
      split: prod.splits sum.splits if_splits)

lemma DeductCredits_InrE:
  assumes "DeductCredits u amount reason fid st = (Inr x, st')"
  obtains c0 s0 s2 where
    "GetUserCredits u st = (Inr c0, s0)"
    "\<not> uc_Balance c0 <s amount"
    "db_UpdateUserCredits (c0\<lparr>uc_Balance := uc_Balance c0 - amount,
        uc_TotalSpent := uc_TotalSpent c0 + amount\<rparr>) s0 = (Inr (), s2)"
    "db_CreateCreditTransaction
       \<lparr>ct_ID = 0, ct_UserID = u, ct_Type = ''spend'', ct_Amount = - amount,
        ct_Balance = uc_Balance c0 - amount, ct_Source = ''download'', ct_SourceID = fid,
        ct_Description = reason\<rparr> s2 = (Inr (), st')"
  using assms
  by (auto simp: DeductCredits_def Let_def split: prod.splits sum.splits if_splits)

lemma DeductCredits_InsufficientE:
  assumes "DeductCredits u amount reason fid st = (Inl (ErrNew InsufficientBalance), st')"
  obtains c0 where "GetUserCredits u st = (Inr c0, st')" "uc_Balance c0 <s amount"
  using assms
  by (auto simp: DeductCredits_def Let_def split: prod.splits sum.splits if_splits
      dest: GetUserCredits_error)

lemma sint_sub_nonneg:
  fixes b amt :: int64
  assumes "\<not> b <s amt" "0 <s amt"
  shows "sint (b - amt) = sint b - sint amt" and "0 \<le> sint (b - amt)"
proof -
  have a: "sint amt \<le> sint b" "0 < sint amt" using assms by (simp_all add: word_sless_alt)
  have r: "sint b < 2 ^ 63" using sint_lt [of b] by simp
  have "sint (b - amt) = signed_take_bit 63 (sint b - sint amt)"
    by (simp add: sint_word_ariths)
  also have "\<dots> = sint b - sint amt"
    using a r by (intro signed_take_bit_int_eq_self) auto
  finally show "sint (b - amt) = sint b - sint amt" .
  with a show "0 \<le> sint (b - amt)" by simp
qed

lemma sint_neg_pos:
  fixes amt :: int64
  assumes "0 <s amt"
  shows "sint (- amt) = - sint amt"
proof -
  have a: "0 < sint amt" using assms by (simp add: word_sless_alt)
  have r: "sint amt < 2 ^ 63" using sint_lt [of amt] by simp
  have "sint (- amt) = signed_take_bit 63 (- sint amt)"
    by (simp add: sint_word_ariths)
  also have "\<dots> = - sint amt"
    using a r by (intro signed_take_bit_int_eq_self) auto
  finally show ?thesis .
qed

lemma DeductCredits_success:
  assumes ok: "keys_ok st" and run: "DeductCredits u amount reason fid st = (Inr x, st')"
  shows "\<not> balance_of st u <s amount"
    and "balance_of st' u = balance_of st u - amount"
    and "spent_of st' u = spent_of st u + amount"
    and "earned_of st' u = earned_of st u"
    and "x_credit_transactions st' = x_credit_transactions st @
           [\<lparr>ct_ID = fresh_id (map ct_ID (x_credit_transactions st)), ct_UserID = u,
             ct_Type = ''spend'', ct_Amount = - amount, ct_Balance = balance_of st' u,
             ct_Source = ''download'', ct_SourceID = fid, ct_Description = reason\<rparr>]"
    and "v \<noteq> u \<Longrightarrow> account_of st' v = account_of st v"
    and "keys_ok st'"
proof -
  from run obtain c0 s0 s2 where
    g: "GetUserCredits u st = (Inr c0, s0)" and
    b: "\<not> uc_Balance c0 <s amount" and
    up: "db_UpdateUserCredits (c0\<lparr>uc_Balance := uc_Balance c0 - amount,
        uc_TotalSpent := uc_TotalSpent c0 + amount\<rparr>) s0 = (Inr (), s2)" and
    tx: "db_CreateCreditTransaction
       \<lparr>ct_ID = 0, ct_UserID = u, ct_Type = ''spend'', ct_Amount = - amount,
        ct_Balance = uc_Balance c0 - amount, ct_Source = ''download'', ct_SourceID = fid,
        ct_Description = reason\<rparr> s2 = (Inr (), st')"
    by (rule DeductCredits_InrE)
  let ?c = "c0\<lparr>uc_Balance := uc_Balance c0 - amount,
        uc_TotalSpent := uc_TotalSpent c0 + amount\<rparr>"
  note V = GetUserCredits_views [OF g]
  have c0: "account_of s0 u = Some c0" "uc_UserID c0 = u" "uc_Balance c0 = balance_of st u"
    "uc_TotalSpent c0 = spent_of st u" "uc_TotalEarn c0 = earned_of st u"
    using V(5) by simp_all
  have k0: "keys_ok s0" using V(4) ok by simp
  have sv: "x_user_credits s2 = save_row uc_ID ?c (x_user_credits s0)"
    using db_Update_cases(3) [OF up] by simp
  have "uc_ID ?c = uc_ID c0" "uc_UserID ?c = u" using c0 by simp_all
  note S = account_of_save [OF k0 c0(1) this sv]
  have same: "account_of st' = account_of s2"
    using db_CreateTx_cases(1) [OF tx] by (auto simp: account_of_def)
  show "\<not> balance_of st u <s amount" using b c0 by simp
  show bal: "balance_of st' u = balance_of st u - amount"
    using same S(1) c0 by (simp add: balance_of_def)
  show "spent_of st' u = spent_of st u + amount"
    using same S(1) c0 by (simp add: spent_of_def)
  show "earned_of st' u = earned_of st u"
    using same S(1) c0 by (simp add: earned_of_def)
  have "x_credit_transactions s2 = x_credit_transactions st"
    using db_Update_cases(1) [OF up] GetUserCredits_cases(1) [OF g] by simp
  then show "x_credit_transactions st' = x_credit_transactions st @
           [\<lparr>ct_ID = fresh_id (map ct_ID (x_credit_transactions st)), ct_UserID = u,
             ct_Type = ''spend'', ct_Amount = - amount, ct_Balance = balance_of st' u,
             ct_Source = ''download'', ct_SourceID = fid, ct_Description = reason\<rparr>]"
    using db_CreateTx_cases(3) [OF tx] bal c0 by simp
  show "v \<noteq> u \<Longrightarrow> account_of st' v = account_of st v"
    using same S(2) V(6) by simp
  show "keys_ok st'" using S(3) db_CreateTx_cases(1) [OF tx] by (simp add: keys_ok_def)
qed

lemma DeductCredits_insufficient:
  assumes "DeductCredits u amount reason fid st = (Inl (ErrNew InsufficientBalance), st')"
  shows "balance_of st u <s amount"
    and "balance_of st' v = balance_of st v"
    and "spent_of st' v = spent_of st v"
    and "earned_of st' v = earned_of st v"
    and "x_credit_transactions st' = x_credit_transactions st"
proof -
  from assms obtain c0 where g: "GetUserCredits u st = (Inr c0, st')"
    and b: "uc_Balance c0 <s amount"
    by (rule DeductCredits_InsufficientE)
  note V = GetUserCredits_views [OF g]
  show "balance_of st u <s amount" using V(5) b by simp
  show "balance_of st' v = balance_of st v" by (rule V(1))
  show "spent_of st' v = spent_of st v" by (rule V(2))
  show "earned_of st' v = earned_of st v" by (rule V(3))
  show "x_credit_transactions st' = x_credit_transactions st"
    by (rule GetUserCredits_cases(1) [OF g])
qed

lemma DeductCredits_nofault:
  assumes "faults st = []"
  shows "fst (DeductCredits u amount reason fid st) =
           (if balance_of st u <s amount then Inl (ErrNew InsufficientBalance) else Inr ())"
proof -
  obtain r0 s0 where g: "GetUserCredits u st = (r0, s0)" by force
  from GetUserCredits_cases(4) [OF g assms] obtain c0 where
    r0: "r0 = Inr c0" and f0: "faults s0 = []" by auto
  have c0: "uc_Balance c0 = balance_of st u"
    using GetUserCredits_views(5) [OF g r0] by simp
  let ?c = "c0\<lparr>uc_Balance := uc_Balance c0 - amount,
        uc_TotalSpent := uc_TotalSpent c0 + amount\<rparr>"
  obtain r2 s2 where up: "db_UpdateUserCredits ?c s0 = (r2, s2)" by force
  from db_Update_cases(4) [OF up f0] have r2: "r2 = Inr ()" and f2: "faults s2 = []" by auto
  let ?t = "\<lparr>ct_ID = 0, ct_UserID = u, ct_Type = ''spend'', ct_Amount = - amount,
        ct_Balance = uc_Balance ?c, ct_Source = ''download'', ct_SourceID = fid,
        ct_Description = reason\<rparr>"
  obtain r3 s3 where tx: "db_CreateCreditTransaction ?t s2 = (r3, s3)" by force
  from db_CreateTx_cases(4) [OF tx f2] have r3: "r3 = Inr ()" by auto
  show ?thesis
    using g r0 c0 up r2 tx r3 by (simp add: DeductCredits_def Let_def)
qed

section \<open>The debit contract\<close>

lemma DeductCredits_nofault_state:
  assumes "faults st = []"
  shows "faults (snd (DeductCredits u amount reason fid st)) = []"
proof -
  obtain r0 s0 where g: "GetUserCredits u st = (r0, s0)" by force
  from GetUserCredits_cases(4) [OF g assms] obtain c0 where
    r0: "r0 = Inr c0" and f0: "faults s0 = []" by auto
  let ?c = "c0\<lparr>uc_Balance := uc_Balance c0 - amount,
        uc_TotalSpent := uc_TotalSpent c0 + amount\<rparr>"
  obtain r2 s2 where up: "db_UpdateUserCredits ?c s0 = (r2, s2)" by force
  from db_Update_cases(4) [OF up f0] have r2: "r2 = Inr ()" and f2: "faults s2 = []" by auto
  let ?t = "\<lparr>ct_ID = 0, ct_UserID = u, ct_Type = ''spend'', ct_Amount = - amount,
        ct_Balance = uc_Balance ?c, ct_Source = ''download'', ct_SourceID = fid,
        ct_Description = reason\<rparr>"
  obtain r3 s3 where tx: "db_CreateCreditTransaction ?t s2 = (r3, s3)" by force
  from db_CreateTx_cases(4) [OF tx f2] have r3: "r3 = Inr ()" and f3: "faults s3 = []" by auto
  show ?thesis
    using g r0 f0 up r2 tx r3 f3 by (simp add: DeductCredits_def Let_def)
qed

lemma DeductCredits_balance_cases:
  assumes ok: "keys_ok st" and run: "DeductCredits u amount reason fid st = (r, st')"
  shows "balance_of st' u = balance_of st u \<or>
         (\<not> balance_of st u <s amount \<and> balance_of st' u = balance_of st u - amount)"
proof -
  obtain r0 s0 where g: "GetUserCredits u st = (r0, s0)" by force
  note V = GetUserCredits_views [OF g]
  show ?thesis
  proof (cases r0)
    case (Inl e)
    with run g have "st' = s0" by (simp add: DeductCredits_def)
    with V(1) show ?thesis by simp
  next
    case (Inr c0)
    have c0: "account_of s0 u = Some c0" "uc_UserID c0 = u" "uc_Balance c0 = balance_of st u"
      using V(5) [OF Inr] by simp_all
    show ?thesis
    proof (cases "uc_Balance c0 <s amount")
      case True
      with run g Inr have "st' = s0" by (simp add: DeductCredits_def)
      with V(1) show ?thesis by simp
    next
      case False
      let ?c = "c0\<lparr>uc_Balance := uc_Balance c0 - amount,
        uc_TotalSpent := uc_TotalSpent c0 + amount\<rparr>"
      obtain r2 s2 where up: "db_UpdateUserCredits ?c s0 = (r2, s2)" by force
      show ?thesis
      proof (cases r2)
        case (Inl e2)
        with run g Inr False up have "st' = s2" by (simp add: DeductCredits_def Let_def)
        moreover have "x_user_credits s2 = x_user_credits s0"
          using db_Update_cases(2) [OF up Inl] .
        ultimately have "balance_of st' u = balance_of s0 u"
          by (simp add: balance_of_def account_of_def)
        with V(1) show ?thesis by simp
      next
        case (Inr x)
        let ?t = "\<lparr>ct_ID = 0, ct_UserID = u, ct_Type = ''spend'', ct_Amount = - amount,
          ct_Balance = uc_Balance ?c, ct_Source = ''download'', ct_SourceID = fid,
          ct_Description = reason\<rparr>"
        obtain r3 s3 where tx: "db_CreateCreditTransaction ?t s2 = (r3, s3)" by force
        from run g \<open>r0 = Inr c0\<close> False up Inr tx have "st' = s3"
          by (auto simp: DeductCredits_def Let_def split: sum.splits)
        then have same: "x_user_credits st' = x_user_credits s2"
          using db_CreateTx_cases(1) [OF tx] by simp
        have sv: "x_user_credits s2 = save_row uc_ID ?c (x_user_credits s0)"
          using db_Update_cases(3) [OF up Inr] .
        have k0: "keys_ok s0" using V(4) ok by simp
        have "uc_ID ?c = uc_ID c0" "uc_UserID ?c = u" using c0 by simp_all
        from account_of_save(1) [OF k0 c0(1) this sv]
        have "account_of s2 u = Some ?c" .
        with same have "balance_of st' u = uc_Balance c0 - amount"
          by (simp add: balance_of_def account_of_def)
        with c0 False show ?thesis by simp
      qed
    qed
  qed
qed

text \<open>
  C5. For every user and positive amount: when no statement fails, \<open>DeductCredits\<close>
  fails with the insufficient-balance error exactly when the balance is less than the
  amount, and succeeds otherwise. Whenever it fails with that error, the balance, the
  cumulative spending and the transaction history are as before. Whenever it succeeds, the
  balance is the old one less the amount (as integers too: the subtraction cannot wrap
  around), the cumulative spending the old one plus the amount (in 64-bit arithmetic), and
  one \<open>spend\<close> transaction is appended whose signed amount is the negated
  amount and whose recorded balance is the new balance. Whatever the outcome, also when a
  statement fails, a balance that was not negative is not negative afterwards.
\<close>

theorem DeductCredits_contract:
  assumes "keys_ok st" and "0 <s amount"
    and "DeductCredits u amount reason fileID st = (r, st')"
  shows "(faults st = [] \<longrightarrow>
            (r = Inl (ErrNew InsufficientBalance) \<longleftrightarrow> balance_of st u <s amount) \<and>
            (r = Inr () \<longleftrightarrow> \<not> balance_of st u <s amount)) \<and>
         (r = Inl (ErrNew InsufficientBalance) \<longrightarrow>
            balance_of st u <s amount \<and> balance_of st' u = balance_of st u \<and>
            spent_of st' u = spent_of st u \<and>
            x_credit_transactions st' = x_credit_transactions st) \<and>
         (r = Inr () \<longrightarrow>
            \<not> balance_of st u <s amount \<and>
            balance_of st' u = balance_of st u - amount \<and>
            sint (balance_of st' u) = sint (balance_of st u) - sint amount \<and>
            spent_of st' u = spent_of st u + amount \<and>
            x_credit_transactions st' = x_credit_transactions st @
              [\<lparr>ct_ID = fresh_id (map ct_ID (x_credit_transactions st)), ct_UserID = u,
                ct_Type = ''spend'', ct_Amount = - amount, ct_Balance = balance_of st' u,
                ct_Source = ''download'', ct_SourceID = fileID, ct_Description = reason\<rparr>] \<and>
            sint (- amount) = - sint amount) \<and>
         (0 \<le> sint (balance_of st u) \<longrightarrow> 0 \<le> sint (balance_of st' u))"
proof (intro conjI impI)
  assume nf: "faults st = []"
  from DeductCredits_nofault [OF nf, of u amount reason fileID] assms(3)
  have r: "r = (if balance_of st u <s amount then Inl (ErrNew InsufficientBalance) else Inr ())"
    by simp
  then show "r = Inl (ErrNew InsufficientBalance) \<longleftrightarrow> balance_of st u <s amount" by simp
  from r show "r = Inr () \<longleftrightarrow> \<not> balance_of st u <s amount" by simp
next
  assume r: "r = Inl (ErrNew InsufficientBalance)"
  note I = DeductCredits_insufficient [OF assms(3) [unfolded r]]
  show "balance_of st u <s amount" by (rule I(1))
  show "balance_of st' u = balance_of st u" by (rule I(2))
  show "spent_of st' u = spent_of st u" by (rule I(3))
  show "x_credit_transactions st' = x_credit_transactions st" by (rule I(5))
next
  assume r: "r = Inr ()"
  note S = DeductCredits_success [OF assms(1) assms(3) [unfolded r]]
  show "\<not> balance_of st u <s amount" by (rule S(1))
  show "balance_of st' u = balance_of st u - amount" by (rule S(2))
  show "sint (balance_of st' u) = sint (balance_of st u) - sint amount"
    using S(2) sint_sub_nonneg(1) [OF S(1) assms(2)] by simp
  show "spent_of st' u = spent_of st u + amount" by (rule S(3))
  show "x_credit_transactions st' = x_credit_transactions st @
              [\<lparr>ct_ID = fresh_id (map ct_ID (x_credit_transactions st)), ct_UserID = u,
                ct_Type = ''spend'', ct_Amount = - amount, ct_Balance = balance_of st' u,
                ct_Source = ''download'', ct_SourceID = fileID, ct_Description = reason\<rparr>]"
    by (rule S(5))
  show "sint (- amount) = - sint amount" using assms(2) by (rule sint_neg_pos)
next
  assume nn: "0 \<le> sint (balance_of st u)"
  from DeductCredits_balance_cases [OF assms(1,3)]
  show "0 \<le> sint (balance_of st' u)"
  proof
    assume "balance_of st' u = balance_of st u"
    with nn show ?thesis by simp
  next
    assume "\<not> balance_of st u <s amount \<and> balance_of st' u = balance_of st u - amount"
    with sint_sub_nonneg(2) [of "balance_of st u" amount] assms(2) show ?thesis by simp
  qed
qed

theorem DeductCredits_contract_witness:
  "keys_ok ledger_example \<and> (0::int64) <s 60 \<and> 0 <s (150::int64) \<and>
   fst (DeductCredits 7 60 ''get'' ''/f'' ledger_example) = Inr () \<and>
   balance_of (snd (DeductCredits 7 60 ''get'' ''/f'' ledger_example)) 7 = 40 \<and>
   spent_of (snd (DeductCredits 7 60 ''get'' ''/f'' ledger_example)) 7 = 60 \<and>
   fst (DeductCredits 7 150 ''get'' ''/f'' ledger_example) = Inl (ErrNew InsufficientBalance) \<and>
   balance_of (snd (DeductCredits 7 150 ''get'' ''/f'' ledger_example)) 7 = 100 \<and>
   x_credit_transactions (snd (DeductCredits 7 150 ''get'' ''/f'' ledger_example)) =
     x_credit_transactions ledger_example"
proof -
  have k: "keys_ok ledger_example"
    by (simp add: keys_ok_def ledger_example_def empty_db_def)
  have nf: "faults ledger_example = []"
    by (simp add: ledger_example_def empty_db_def)
  have b: "balance_of ledger_example 7 = 100"
    by (simp add: balance_of_def account_of_def ledger_example_def empty_db_def)
  have sp: "spent_of ledger_example 7 = 0"
    by (simp add: spent_of_def account_of_def ledger_example_def empty_db_def)
  have p1: "(0::int64) <s 60" and p2: "(0::int64) <s 150" by (simp_all add: word_sless_alt)
  have q1: "\<not> (100::int64) <s 60" and q2: "(100::int64) <s 150" by simp_all
  have e1: "DeductCredits 7 60 ''get'' ''/f'' ledger_example =
      (fst (DeductCredits 7 60 ''get'' ''/f'' ledger_example),
       snd (DeductCredits 7 60 ''get'' ''/f'' ledger_example))" by simp
  have e2: "DeductCredits 7 150 ''get'' ''/f'' ledger_example =
      (fst (DeductCredits 7 150 ''get'' ''/f'' ledger_example),
       snd (DeductCredits 7 150 ''get'' ''/f'' ledger_example))" by simp
  show ?thesis
    using DeductCredits_contract [OF k p1 e1] DeductCredits_contract [OF k p2 e2]
      k nf b sp p1 p2 q1 q2
    by simp
qed

section \<open>The two steps of a credit\<close>

lemma GetUserCredits_error_context:
  assumes "GetUserCredits u st = (Inl e, st1)"
  shows "\<exists>c e'. e = ErrWrap c e' \<and> c \<noteq> RecordTransactionFailed"
  using assms
  by (auto simp: GetUserCredits_def CreateUserCredits_def
      split: prod.splits sum.splits if_splits)

lemma tx_sum_append:
  assumes "x_credit_transactions st' = x_credit_transactions st @ [t]"
  shows "tx_sum st' u = tx_sum st u + (if ct_UserID t = u then ct_Amount t else 0)"
  using assms by (simp add: tx_sum_def)

lemma AddCredits_cases:
  assumes ok: "keys_ok st" and run: "AddCredits u amount reason orderID st = (r, st')"
  shows "(r = Inr () \<and> balance_of st' u = balance_of st u + amount \<and>
          earned_of st' u = earned_of st u + amount \<and> spent_of st' u = spent_of st u \<and>
          x_credit_transactions st' = x_credit_transactions st @
            [\<lparr>ct_ID = fresh_id (map ct_ID (x_credit_transactions st)), ct_UserID = u,
              ct_Type = ''earn'', ct_Amount = amount, ct_Balance = balance_of st' u,
              ct_Source = reason, ct_SourceID = orderID, ct_Description = reason\<rparr>]) \<or>
         (\<exists>e'. r = Inl (ErrWrap RecordTransactionFailed e') \<and>
          balance_of st' u = balance_of st u + amount \<and>
          earned_of st' u = earned_of st u + amount \<and>
          x_credit_transactions st' = x_credit_transactions st) \<or>
         (\<exists>c e'. r = Inl (ErrWrap c e') \<and> c \<noteq> RecordTransactionFailed \<and>
          balance_of st' u = balance_of st u \<and> earned_of st' u = earned_of st u \<and>
          x_credit_transactions st' = x_credit_transactions st)"
proof -
  obtain r0 s0 where g: "GetUserCredits u st = (r0, s0)" by force
  note V = GetUserCredits_views [OF g]
  note G = GetUserCredits_cases [OF g]
  show ?thesis
  proof (cases r0)
    case (Inl e)
    with run g have "st' = s0" "r = Inl e" by (simp_all add: AddCredits_def)
    moreover from GetUserCredits_error_context g Inl
    obtain c e' where "e = ErrWrap c e'" "c \<noteq> RecordTransactionFailed" by blast
    ultimately show ?thesis using V(1,3) G(1) by simp
  next
    case (Inr c0)
    have c0: "account_of s0 u = Some c0" "uc_UserID c0 = u" "uc_Balance c0 = balance_of st u"
      "uc_TotalEarn c0 = earned_of st u" "uc_TotalSpent c0 = spent_of st u"
      using V(5) [OF Inr] by simp_all
    let ?c = "c0\<lparr>uc_Balance := uc_Balance c0 + amount,
                   uc_TotalEarn := uc_TotalEarn c0 + amount\<rparr>"
    obtain r2 s2 where up: "db_UpdateUserCredits ?c s0 = (r2, s2)" by force
    have tx2: "x_credit_transactions s2 = x_credit_transactions st"
      using db_Update_cases(1) [OF up] G(1) by simp
    show ?thesis
    proof (cases r2)
      case (Inl e2)
      with run g Inr up have "st' = s2" "r = Inl (ErrWrap UpdateAccountFailed e2)"
        by (simp_all add: AddCredits_def Let_def)
      moreover have "x_user_credits s2 = x_user_credits s0"
        using db_Update_cases(2) [OF up Inl] .
      then have "balance_of s2 u = balance_of s0 u" "earned_of s2 u = earned_of s0 u"
        by (simp_all add: balance_of_def earned_of_def account_of_def)
      ultimately show ?thesis using V(1,3) tx2 by simp
    next
      case (Inr x)
      let ?t = "\<lparr>ct_ID = 0, ct_UserID = u, ct_Type = ''earn'', ct_Amount = amount,
          ct_Balance = uc_Balance ?c, ct_Source = reason, ct_SourceID = orderID,
          ct_Description = reason\<rparr>"
      obtain r3 s3 where tx: "db_CreateCreditTransaction ?t s2 = (r3, s3)" by force
      from run g \<open>r0 = Inr c0\<close> up Inr tx
      have st': "st' = s3"
        and r: "r = (case r3 of Inl e \<Rightarrow> Inl (ErrWrap RecordTransactionFailed e) | Inr y \<Rightarrow> Inr ())"
        by (auto simp: AddCredits_def Let_def split: sum.splits)
      have same: "x_user_credits st' = x_user_credits s2"
        using db_CreateTx_cases(1) [OF tx] st' by simp
      have sv: "x_user_credits s2 = save_row uc_ID ?c (x_user_credits s0)"
        using db_Update_cases(3) [OF up Inr] .
      have k0: "keys_ok s0" using V(4) ok by simp
      have "uc_ID ?c = uc_ID c0" "uc_UserID ?c = u" using c0 by simp_all
      from account_of_save(1) [OF k0 c0(1) this sv]
      have "account_of s2 u = Some ?c" .
      with same have acc: "account_of st' u = Some ?c" by (simp add: account_of_def)
      have bal: "balance_of st' u = balance_of st u + amount"
        and ear: "earned_of st' u = earned_of st u + amount"
        and spe: "spent_of st' u = spent_of st u"
        using acc c0 by (simp_all add: balance_of_def earned_of_def spent_of_def)
      show ?thesis
      proof (cases r3)
        case (Inl e3)
        with r st' db_CreateTx_cases(2) [OF tx Inl] tx2 bal ear show ?thesis by simp
      next
        case (Inr y)
        with r st' db_CreateTx_cases(3) [OF tx Inr] tx2 bal ear spe c0 show ?thesis by simp
      qed
    qed
  qed
qed

lemma AddCredits_nofault:
  assumes "faults st = []"
  shows "fst (AddCredits u amount reason orderID st) = Inr ()"
    and "faults (snd (AddCredits u amount reason orderID st)) = []"
proof -
  obtain r0 s0 where g: "GetUserCredits u st = (r0, s0)" by force
  from GetUserCredits_cases(4) [OF g assms] obtain c0 where
    r0: "r0 = Inr c0" and f0: "faults s0 = []" by auto
  let ?c = "c0\<lparr>uc_Balance := uc_Balance c0 + amount,
                 uc_TotalEarn := uc_TotalEarn c0 + amount\<rparr>"
  obtain r2 s2 where up: "db_UpdateUserCredits ?c s0 = (r2, s2)" by force
  from db_Update_cases(4) [OF up f0] have r2: "r2 = Inr ()" and f2: "faults s2 = []" by auto
  let ?t = "\<lparr>ct_ID = 0, ct_UserID = u, ct_Type = ''earn'', ct_Amount = amount,
          ct_Balance = uc_Balance ?c, ct_Source = reason, ct_SourceID = orderID,
          ct_Description = reason\<rparr>"
  obtain r3 s3 where tx: "db_CreateCreditTransaction ?t s2 = (r3, s3)" by force
  from db_CreateTx_cases(4) [OF tx f2] have r3: "r3 = Inr ()" and f3: "faults s3 = []" by auto
  show "fst (AddCredits u amount reason orderID st) = Inr ()"
    using g r0 up r2 tx r3 by (simp add: AddCredits_def Let_def)
  show "faults (snd (AddCredits u amount reason orderID st)) = []"
    using g r0 up r2 tx r3 f3 by (simp add: AddCredits_def Let_def)
qed

lemmas ledger_eval = stmt_def fresh_id_def save_row_def
  db_GetUserCreditsByUserID_def db_CreateUserCredits_def db_UpdateUserCredits_def
  db_CreateCreditTransaction_def CreateUserCredits_def GetUserCredits_def
  account_of_def balance_of_def spent_of_def earned_of_def tx_sum_def keys_ok_def
  empty_db_def ledger_example_def

text \<open>
  C4, as stated, fails. With the account read and the account update served and the insert
  of the transaction failing, \<open>AddCredits\<close> returns an error, the balance of user 7 has
  gone from 100 to 150, and no transaction is recorded: the transactions sum to 100, which
  was the balance before the call and is not the balance after it.
\<close>

theorem AddCredits_partial_counterexample:
  "fst (AddCredits 7 50 ''admin'' [] insert_fails_example) =
     Inl (ErrWrap RecordTransactionFailed ErrDB) \<and>
   balance_of insert_fails_example 7 = 100 \<and>
   tx_sum insert_fails_example 7 = 100 \<and>
   balance_of (snd (AddCredits 7 50 ''admin'' [] insert_fails_example)) 7 = 150 \<and>
   x_credit_transactions (snd (AddCredits 7 50 ''admin'' [] insert_fails_example)) =
     x_credit_transactions insert_fails_example \<and>
   tx_sum (snd (AddCredits 7 50 ''admin'' [] insert_fails_example)) 7 = 100 \<and>
   tx_sum (snd (AddCredits 7 50 ''admin'' [] insert_fails_example)) 7 \<noteq>
     balance_of (snd (AddCredits 7 50 ''admin'' [] insert_fails_example)) 7"
  by (simp add: AddCredits_def insert_fails_example_def ledger_eval)

text \<open>
  C4, amended. \<open>AddCredits\<close> writes the account and then inserts the transaction, as two
  statements with no transaction around them. When it succeeds, both are committed: the
  balance and the cumulative earnings grow by the amount and one \<open>earn\<close> transaction with
  the amount and the new balance is appended, so the balance and the sum of the
  transaction amounts move together. When it fails before or at the account update,
  neither is committed. When it fails at the insert of the transaction, the new balance
  stays committed and no transaction is recorded. When no statement fails it succeeds.
\<close>

theorem AddCredits_commit_steps:
  assumes "keys_ok st" and "AddCredits u amount reason orderID st = (r, st')"
  shows "(r = Inr () \<longrightarrow>
            balance_of st' u = balance_of st u + amount \<and>
            earned_of st' u = earned_of st u + amount \<and>
            x_credit_transactions st' = x_credit_transactions st @
              [\<lparr>ct_ID = fresh_id (map ct_ID (x_credit_transactions st)), ct_UserID = u,
                ct_Type = ''earn'', ct_Amount = amount, ct_Balance = balance_of st' u,
                ct_Source = reason, ct_SourceID = orderID, ct_Description = reason\<rparr>] \<and>
            tx_sum st' u = tx_sum st u + amount \<and>
            balance_of st' u - tx_sum st' u = balance_of st u - tx_sum st u) \<and>
         (\<forall>e. r = Inl (ErrWrap RecordTransactionFailed e) \<longrightarrow>
            balance_of st' u = balance_of st u + amount \<and>
            earned_of st' u = earned_of st u + amount \<and>
            x_credit_transactions st' = x_credit_transactions st) \<and>
         (\<forall>e. r = Inl e \<longrightarrow> (\<forall>e'. e \<noteq> ErrWrap RecordTransactionFailed e') \<longrightarrow>
            balance_of st' u = balance_of st u \<and> earned_of st' u = earned_of st u \<and>
            x_credit_transactions st' = x_credit_transactions st) \<and>
         (faults st = [] \<longrightarrow> r = Inr ())"
proof (intro conjI allI impI)
  note C = AddCredits_cases [OF assms]
  {
    assume r: "r = Inr ()"
    with C have s: "balance_of st' u = balance_of st u + amount"
      "earned_of st' u = earned_of st u + amount"
      "x_credit_transactions st' = x_credit_transactions st @
              [\<lparr>ct_ID = fresh_id (map ct_ID (x_credit_transactions st)), ct_UserID = u,
                ct_Type = ''earn'', ct_Amount = amount, ct_Balance = balance_of st' u,
                ct_Source = reason, ct_SourceID = orderID, ct_Description = reason\<rparr>]"
      by auto
    show "balance_of st' u = balance_of st u + amount" by (rule s(1))
    show "earned_of st' u = earned_of st u + amount" by (rule s(2))
    show "x_credit_transactions st' = x_credit_transactions st @
              [\<lparr>ct_ID = fresh_id (map ct_ID (x_credit_transactions st)), ct_UserID = u,
                ct_Type = ''earn'', ct_Amount = amount, ct_Balance = balance_of st' u,
                ct_Source = reason, ct_SourceID = orderID, ct_Description = reason\<rparr>]"
      by (rule s(3))
    show t: "tx_sum st' u = tx_sum st u + amount"
      using tx_sum_append [OF s(3), of u] by simp
    show "balance_of st' u - tx_sum st' u = balance_of st u - tx_sum st u"
      using s(1) t by simp
  }
  {
    fix e assume "r = Inl (ErrWrap RecordTransactionFailed e)"
    with C have s: "balance_of st' u = balance_of st u + amount \<and>
        earned_of st' u = earned_of st u + amount \<and>
        x_credit_transactions st' = x_credit_transactions st" by auto
    from s show "balance_of st' u = balance_of st u + amount" by simp
    from s show "earned_of st' u = earned_of st u + amount" by simp
    from s show "x_credit_transactions st' = x_credit_transactions st" by simp
  }
  {
    fix e assume "r = Inl e" "\<forall>e'. e \<noteq> ErrWrap RecordTransactionFailed e'"
    with C have s: "balance_of st' u = balance_of st u \<and> earned_of st' u = earned_of st u \<and>
        x_credit_transactions st' = x_credit_transactions st" by auto
    from s show "balance_of st' u = balance_of st u" by simp
    from s show "earned_of st' u = earned_of st u" by simp
    from s show "x_credit_transactions st' = x_credit_transactions st" by simp
  }
  {
    assume "faults st = []"
    from AddCredits_nofault(1) [OF this, of u amount reason orderID] assms(2)
    show "r = Inr ()" by simp
  }
qed

theorem AddCredits_commit_steps_witness:
  "keys_ok ledger_example \<and> keys_ok insert_fails_example \<and>
   fst (AddCredits 7 50 ''admin'' [] ledger_example) = Inr () \<and>
   balance_of (snd (AddCredits 7 50 ''admin'' [] ledger_example)) 7 = 150 \<and>
   tx_sum (snd (AddCredits 7 50 ''admin'' [] ledger_example)) 7 = 150 \<and>
   fst (AddCredits 7 50 ''admin'' [] insert_fails_example) =
     Inl (ErrWrap RecordTransactionFailed ErrDB) \<and>
   balance_of (snd (AddCredits 7 50 ''admin'' [] insert_fails_example)) 7 = 150 \<and>
   x_credit_transactions (snd (AddCredits 7 50 ''admin'' [] insert_fails_example)) =
     x_credit_transactions insert_fails_example"
proof -
  have k1: "keys_ok ledger_example" by (simp add: ledger_eval)
  have k2: "keys_ok insert_fails_example" by (simp add: insert_fails_example_def ledger_eval)
  have nf: "faults ledger_example = []" by (simp add: ledger_eval)
  have v: "balance_of ledger_example 7 = 100" "tx_sum ledger_example 7 = 100"
    "balance_of insert_fails_example 7 = 100"
    by (simp_all add: insert_fails_example_def ledger_eval)
  have r2: "fst (AddCredits 7 50 ''admin'' [] insert_fails_example) =
     Inl (ErrWrap RecordTransactionFailed ErrDB)"
    by (simp add: AddCredits_def insert_fails_example_def ledger_eval)
  have e1: "AddCredits 7 50 ''admin'' [] ledger_example =
      (fst (AddCredits 7 50 ''admin'' [] ledger_example),
       snd (AddCredits 7 50 ''admin'' [] ledger_example))" by simp
  have e2: "AddCredits 7 50 ''admin'' [] insert_fails_example =
      (fst (AddCredits 7 50 ''admin'' [] insert_fails_example),
       snd (AddCredits 7 50 ''admin'' [] insert_fails_example))" by simp
  show ?thesis
    using AddCredits_commit_steps [OF k1 e1] AddCredits_commit_steps [OF k2 e2]
      k1 k2 nf v r2
    by simp
qed

section \<open>Two debits of one account\<close>

lemma DeductCredits_phases:
  "DeductCredits u amount reason fid st =
     (case Deduct_check u amount st of
        (c, st1) \<Rightarrow> Deduct_commit c u amount reason fid st1)"
  by (simp add: DeductCredits_def Deduct_check_def Deduct_commit_def
      split: prod.splits sum.splits)

lemma Deduct_check_nofault:
  assumes "faults st = []" "\<not> balance_of st u <s amount"
  obtains c0 s1 where "Deduct_check u amount st = (Inr c0, s1)"
    "account_of s1 u = Some c0" "uc_UserID c0 = u" "uc_Balance c0 = balance_of st u"
    "faults s1 = []" "keys_ok st \<Longrightarrow> keys_ok s1" "balance_of s1 u = balance_of st u"
    "\<And>c. account_of st u = Some c \<Longrightarrow> c0 = c"
proof -
  obtain r0 s0 where g: "GetUserCredits u st = (r0, s0)" by force
  from GetUserCredits_cases(4) [OF g assms(1)] obtain c0 where
    r0: "r0 = Inr c0" and f0: "faults s0 = []" by auto
  note V = GetUserCredits_views [OF g]
  have c0: "account_of s0 u = Some c0" "uc_UserID c0 = u" "uc_Balance c0 = balance_of st u"
    using V(5) [OF r0] by simp_all
  have chk: "Deduct_check u amount st = (Inr c0, s0)"
    using g r0 c0 assms(2) by (simp add: Deduct_check_def)
  have eq: "\<And>c. account_of st u = Some c \<Longrightarrow> c0 = c"
    using GetUserCredits_cases(3) [OF g r0] by auto
  show ?thesis by (rule that [OF chk c0(1) c0(2) c0(3) f0 V(4) V(1) eq])
qed

lemma Deduct_commit_nofault:
  assumes "faults s = []" "keys_ok s" "account_of s u = Some c" "uc_ID c0 = uc_ID c"
    "uc_UserID c0 = u"
  obtains s' where "Deduct_commit (Inr c0) u amount reason fid s = (Inr (), s')"
    "account_of s' u = Some (c0\<lparr>uc_Balance := uc_Balance c0 - amount,
        uc_TotalSpent := uc_TotalSpent c0 + amount\<rparr>)"
    "faults s' = []" "keys_ok s'"
proof -
  let ?c = "c0\<lparr>uc_Balance := uc_Balance c0 - amount,
        uc_TotalSpent := uc_TotalSpent c0 + amount\<rparr>"
  obtain r2 s2 where up: "db_UpdateUserCredits ?c s = (r2, s2)" by force
  from db_Update_cases(4) [OF up assms(1)] have r2: "r2 = Inr ()" and f2: "faults s2 = []"
    by auto
  let ?t = "\<lparr>ct_ID = 0, ct_UserID = u, ct_Type = ''spend'', ct_Amount = - amount,
        ct_Balance = uc_Balance ?c, ct_Source = ''download'', ct_SourceID = fid,
        ct_Description = reason\<rparr>"
  obtain r3 s3 where tx: "db_CreateCreditTransaction ?t s2 = (r3, s3)" by force
  from db_CreateTx_cases(4) [OF tx f2] have r3: "r3 = Inr ()" and f3: "faults s3 = []" by auto
  have sv: "x_user_credits s2 = save_row uc_ID ?c (x_user_credits s)"
    using db_Update_cases(3) [OF up r2] .
  have "uc_ID ?c = uc_ID c" "uc_UserID ?c = u" using assms(4,5) by simp_all
  note S = account_of_save [OF assms(2,3) this sv]
  have same: "x_user_credits s3 = x_user_credits s2" using db_CreateTx_cases(1) [OF tx] .
  have 1: "Deduct_commit (Inr c0) u amount reason fid s = (Inr (), s3)"
    using up r2 tx r3 by (simp add: Deduct_commit_def Let_def)
  have 2: "account_of s3 u = Some ?c" using S(1) same by (simp add: account_of_def)
  have 3: "keys_ok s3" using S(3) same by (simp add: keys_ok_def)
  from 1 2 f3 3 show ?thesis by (rule that)
qed

text \<open>
  C3, as stated, fails. User 7 holds 100 credits and two debits of 60 are under way. With
  both reads served before either write, both debits pass the balance test and both
  succeed; the second write stores the balance that the second request computed from the
  row it read, so the balance ends at 40 with 120 credits' worth of downloads recorded.
\<close>

theorem debits_interleaved_counterexample:
  "fst (debits_interleaved 7 60 ''get'' ''/f'' ledger_example) = (Inr (), Inr ()) \<and>
   balance_of (snd (debits_interleaved 7 60 ''get'' ''/f'' ledger_example)) 7 = 40 \<and>
   map ct_Amount (x_credit_transactions
      (snd (debits_interleaved 7 60 ''get'' ''/f'' ledger_example))) = [100, - 60, - 60]"
  by (simp add: debits_interleaved_def Deduct_check_def Deduct_commit_def Let_def
      stmt_def fresh_id_def save_row_def db_GetUserCreditsByUserID_def
      db_UpdateUserCredits_def db_CreateCreditTransaction_def GetUserCredits_def
      account_of_def balance_of_def empty_db_def ledger_example_def)

text \<open>
  C3, amended. \<open>DeductCredits\<close> is a check followed by two writes, each a statement of
  its own, with nothing that makes the sequence atomic. For every account with balance 100
  and no failing statement: two debits of 60 that run one after the other end with the
  first successful, the second refused for insufficient balance, and the balance at 40; two
  debits of 60 whose reads are both served before the writes both succeed, and the balance
  is 40 as well.
\<close>

theorem two_debits_of_60:
  assumes "keys_ok st" and "faults st = []" and "balance_of st u = 100"
  shows "fst (debits_sequential u 60 reason fileID st) =
           (Inr (), Inl (ErrNew InsufficientBalance)) \<and>
         balance_of (snd (debits_sequential u 60 reason fileID st)) u = 40 \<and>
         fst (debits_interleaved u 60 reason fileID st) = (Inr (), Inr ()) \<and>
         balance_of (snd (debits_interleaved u 60 reason fileID st)) u = 40"
proof -
  have lt: "\<not> (100::int64) <s 60" "(40::int64) <s 60" by (simp_all add: word_sless_alt)
  \<comment> \<open>one after the other\<close>
  obtain r1 s1 where d1: "DeductCredits u 60 reason fileID st = (r1, s1)" by force
  have r1: "r1 = Inr ()"
    using DeductCredits_nofault [OF assms(2), of u 60 reason fileID] d1 assms(3) lt by simp
  have f1: "faults s1 = []"
    using DeductCredits_nofault_state [OF assms(2), of u 60 reason fileID] d1 by simp
  note S = DeductCredits_success [OF assms(1) d1 [unfolded r1]]
  have b1: "balance_of s1 u = 40" using S(2) assms(3) by simp
  obtain r2 s2 where d2: "DeductCredits u 60 reason fileID s1 = (r2, s2)" by force
  have r2: "r2 = Inl (ErrNew InsufficientBalance)"
    using DeductCredits_nofault [OF f1, of u 60 reason fileID] d2 b1 lt by simp
  have b2: "balance_of s2 u = 40"
    using DeductCredits_insufficient(2) [OF d2 [unfolded r2], of u] b1 by simp
  have seq: "debits_sequential u 60 reason fileID st = ((r1, r2), s2)"
    using d1 d2 by (simp add: debits_sequential_def)
  \<comment> \<open>both reads first\<close>
  have n0: "\<not> balance_of st u <s 60" using assms(3) lt by simp
  from Deduct_check_nofault [OF assms(2) n0] obtain c0 t1 where
    c1: "Deduct_check u 60 st = (Inr c0, t1)" and a1: "account_of t1 u = Some c0"
    and u0: "uc_UserID c0 = u" and bc: "uc_Balance c0 = balance_of st u"
    and g1: "faults t1 = []" and k1: "keys_ok t1" and bt: "balance_of t1 u = balance_of st u"
    using assms(1) by metis
  have n1: "\<not> balance_of t1 u <s 60" using bt n0 by simp
  from Deduct_check_nofault [OF g1 n1] obtain c0' t2 where
    c2: "Deduct_check u 60 t1 = (Inr c0', t2)" and a2: "account_of t2 u = Some c0'"
    and g2: "faults t2 = []" and k2: "keys_ok t2"
    and eq: "\<And>c. account_of t1 u = Some c \<Longrightarrow> c0' = c"
    using k1 by metis
  have same: "c0' = c0" using eq a1 by simp
  from Deduct_commit_nofault [OF g2 k2 a2 [unfolded same] refl u0, of 60 reason fileID]
  obtain t3 where m1: "Deduct_commit (Inr c0) u 60 reason fileID t2 = (Inr (), t3)"
    and a3: "account_of t3 u = Some (c0\<lparr>uc_Balance := uc_Balance c0 - 60,
        uc_TotalSpent := uc_TotalSpent c0 + 60\<rparr>)"
    and g3: "faults t3 = []" and k3: "keys_ok t3" by metis
  have id3: "uc_ID c0 = uc_ID (c0\<lparr>uc_Balance := uc_Balance c0 - 60,
        uc_TotalSpent := uc_TotalSpent c0 + 60\<rparr>)" by simp
  from Deduct_commit_nofault [OF g3 k3 a3 id3 u0, of 60 reason fileID]
  obtain t4 where m2: "Deduct_commit (Inr c0) u 60 reason fileID t3 = (Inr (), t4)"
    and a4: "account_of t4 u = Some (c0\<lparr>uc_Balance := uc_Balance c0 - 60,
        uc_TotalSpent := uc_TotalSpent c0 + 60\<rparr>)" by metis
  have il: "debits_interleaved u 60 reason fileID st = ((Inr (), Inr ()), t4)"
    using c1 c2 same m1 m2 by (simp add: debits_interleaved_def)
  have b4: "balance_of t4 u = 40" using a4 bc assms(3) by (simp add: balance_of_def)
  show ?thesis using seq r1 r2 b2 il b4 by simp
qed

theorem two_debits_of_60_witness:
  "keys_ok ledger_example \<and> faults ledger_example = [] \<and> balance_of ledger_example 7 = 100 \<and>
   fst (debits_sequential 7 60 ''get'' ''/f'' ledger_example) =
     (Inr (), Inl (ErrNew InsufficientBalance)) \<and>
   balance_of (snd (debits_sequential 7 60 ''get'' ''/f'' ledger_example)) 7 = 40 \<and>
   fst (debits_interleaved 7 60 ''get'' ''/f'' ledger_example) = (Inr (), Inr ())"
proof -
  have k: "keys_ok ledger_example"
    by (simp add: keys_ok_def ledger_example_def empty_db_def)
  have nf: "faults ledger_example = []"
    by (simp add: ledger_example_def empty_db_def)
  have b: "balance_of ledger_example 7 = 100"
    by (simp add: balance_of_def account_of_def ledger_example_def empty_db_def)
  show ?thesis using two_debits_of_60 [OF k nf b, of "''get''" "''/f''"] k nf b by simp
qed

section \<open>Completing and cancelling orders\<close>

lemma db_GetOrder_cases:
  assumes "db_GetPaymentOrderByOrderNo orderNo st = (r, st1)"
  shows "x_user_credits st1 = x_user_credits st"
    and "x_credit_transactions st1 = x_credit_transactions st"
    and "x_payment_orders st1 = x_payment_orders st"
    and "r = Inr c \<Longrightarrow> order_of st orderNo = Some c"
    and "r = (if next_fails st then Inl ErrDB
              else case order_of st orderNo of None \<Rightarrow> Inl ErrRecordNotFound
                   | Some c \<Rightarrow> Inr c)"
  using assms
  by (auto simp: db_GetPaymentOrderByOrderNo_def order_of_def next_fails_def
      split: prod.splits bool.splits option.splits dest: stmt_tables)

lemma db_UpdateOrder_cases:
  assumes "db_UpdatePaymentOrder order st = (r, st1)"
  shows "x_user_credits st1 = x_user_credits st"
    and "x_credit_transactions st1 = x_credit_transactions st"
    and "r = Inl e \<Longrightarrow> x_payment_orders st1 = x_payment_orders st"
    and "r = Inr x \<Longrightarrow> x_payment_orders st1 = save_row po_ID order (x_payment_orders st)"
  using assms
  by (auto simp: db_UpdatePaymentOrder_def split: prod.splits bool.splits
      dest: stmt_tables)

lemma ledger_only_trans: "ledger_only a b \<Longrightarrow> ledger_only b c \<Longrightarrow> ledger_only a c"
  by (simp add: ledger_only_def)

lemma ledger_only_db:
  shows "db_GetUserCreditsByUserID u st = (r1, s1) \<Longrightarrow> ledger_only st s1"
    and "db_CreateUserCredits c st = (r2, s2) \<Longrightarrow> ledger_only st s2"
    and "db_UpdateUserCredits c st = (r3, s3) \<Longrightarrow> ledger_only st s3"
    and "db_CreateCreditTransaction t st = (r4, s4) \<Longrightarrow> ledger_only st s4"
  by (auto simp: db_GetUserCreditsByUserID_def db_CreateUserCredits_def
      db_UpdateUserCredits_def db_CreateCreditTransaction_def Let_def ledger_only_def
      split: prod.splits bool.splits option.splits if_splits dest: stmt_tables)

lemma CreateUserCredits_ledger_only:
  assumes "CreateUserCredits u st = (r, st1)"
  shows "ledger_only st st1"
proof -
  obtain r1 s1 where g: "db_GetUserCreditsByUserID u st = (r1, s1)" by force
  obtain r2 s2 where c: "db_CreateUserCredits \<lparr>uc_ID = 0, uc_UserID = u, uc_Balance = 0,
      uc_TotalEarn = 0, uc_TotalSpent = 0\<rparr> s1 = (r2, s2)" by force
  have "st1 = s1 \<or> st1 = s2"
    using assms g c by (auto simp: CreateUserCredits_def split: sum.splits)
  with ledger_only_db(1) [OF g] ledger_only_db(2) [OF c] show ?thesis
    by (blast intro: ledger_only_trans)
qed

lemma GetUserCredits_ledger_only:
  assumes "GetUserCredits u st = (r, st1)"
  shows "ledger_only st st1"
proof -
  obtain r1 s1 where g: "db_GetUserCreditsByUserID u st = (r1, s1)" by force
  obtain r2 s2 where c: "CreateUserCredits u s1 = (r2, s2)" by force
  have "st1 = s1 \<or> st1 = s2"
    using assms g c by (auto simp: GetUserCredits_def split: sum.splits if_splits)
  with ledger_only_db(1) [OF g] CreateUserCredits_ledger_only [OF c] show ?thesis
    by (blast intro: ledger_only_trans)
qed

lemma AddCredits_ledger_only:
  assumes "AddCredits u amount reason orderID st = (r, st')"
  shows "ledger_only st st'"
proof -
  obtain r0 s0 where g: "GetUserCredits u st = (r0, s0)" by force
  note L0 = GetUserCredits_ledger_only [OF g]
  show ?thesis
  proof (cases r0)
    case (Inl e)
    with assms g L0 show ?thesis by (simp add: AddCredits_def)
  next
    case (Inr c0)
    obtain r2 s2 where up: "db_UpdateUserCredits (c0\<lparr>uc_Balance := uc_Balance c0 + amount,
        uc_TotalEarn := uc_TotalEarn c0 + amount\<rparr>) s0 = (r2, s2)" by force
    obtain r3 s3 where tx: "db_CreateCreditTransaction
        \<lparr>ct_ID = 0, ct_UserID = u, ct_Type = ''earn'', ct_Amount = amount,
         ct_Balance = uc_Balance c0 + amount, ct_Source = reason, ct_SourceID = orderID,
         ct_Description = reason\<rparr> s2 = (r3, s3)" by force
    have "st' = s2 \<or> st' = s3"
      using assms g Inr up tx by (auto simp: AddCredits_def Let_def split: sum.splits)
    with L0 ledger_only_db(3) [OF up] ledger_only_db(4) [OF tx] show ?thesis
      by (blast intro: ledger_only_trans)
  qed
qed

lemma CompletePaymentOrder_InrE:
  assumes "CompletePaymentOrder orderNo tid paidAt now st = (Inr x, st')"
  obtains order0 s1 s2 where
    "db_GetPaymentOrderByOrderNo orderNo st = (Inr order0, s1)"
    "po_Status order0 = ''pending''"
    "\<not> PaymentOrder_IsExpired now order0"
    "db_UpdatePaymentOrder (order0\<lparr>po_Status := ''completed'',
        po_PaymentData := transaction_payload tid, po_PaidAt := Some paidAt\<rparr>) s1 = (Inr (), s2)"
    "AddCredits (po_UserID order0) (po_Credits order0) (purchase_reason orderNo) orderNo s2 =
       (Inr (), st')"
  using assms
  by (auto simp: CompletePaymentOrder_def Let_def split: prod.splits sum.splits if_splits)

lemma order_of_save:
  assumes "orders_ok st" "order_of st orderNo = Some c" "po_ID c' = po_ID c"
    "po_OrderNo c' = orderNo"
    and "x_payment_orders st1 = save_row po_ID c' (x_payment_orders st)"
  shows "order_of st1 orderNo = Some c'"
  using find_save_same [of po_ID "x_payment_orders st" "\<lambda>r. po_OrderNo r = orderNo" c c'] assms
  by (simp add: order_of_def orders_ok_def)

lemma CompletePaymentOrder_not_pending:
  assumes "order_of st orderNo = Some c" "po_Status c \<noteq> ''pending''"
    and "CompletePaymentOrder orderNo tid paidAt now st = (r, st')"
  shows "r = (if next_fails st then Inl (ErrWrap GetOrderFailed ErrDB)
              else Inl (ErrNew InvalidOrderState))"
    and "x_user_credits st' = x_user_credits st"
    and "x_credit_transactions st' = x_credit_transactions st"
    and "x_payment_orders st' = x_payment_orders st"
proof -
  obtain r0 s0 where g: "db_GetPaymentOrderByOrderNo orderNo st = (r0, s0)" by force
  note G = db_GetOrder_cases [OF g]
  have r0: "r0 = (if next_fails st then Inl ErrDB else Inr c)" using G(5) assms(1) by simp
  have res: "r = (if next_fails st then Inl (ErrWrap GetOrderFailed ErrDB)
              else Inl (ErrNew InvalidOrderState)) \<and> st' = s0"
    using assms(2,3) g r0 by (auto simp: CompletePaymentOrder_def)
  then show "r = (if next_fails st then Inl (ErrWrap GetOrderFailed ErrDB)
              else Inl (ErrNew InvalidOrderState))" by simp
  from res G show "x_user_credits st' = x_user_credits st"
    "x_credit_transactions st' = x_credit_transactions st"
    "x_payment_orders st' = x_payment_orders st" by simp_all
qed

lemma CompletePaymentOrder_success:
  assumes "keys_ok st" "orders_ok st"
    and "CompletePaymentOrder orderNo tid paidAt now st = (Inr x, st1)"
  obtains order0 where
    "order_of st orderNo = Some order0"
    "po_Status order0 = ''pending''"
    "\<not> PaymentOrder_IsExpired now order0"
    "order_of st1 orderNo = Some (order0\<lparr>po_Status := ''completed'',
        po_PaymentData := transaction_payload tid, po_PaidAt := Some paidAt\<rparr>)"
    "balance_of st1 (po_UserID order0) = balance_of st (po_UserID order0) + po_Credits order0"
    "x_credit_transactions st1 = x_credit_transactions st @
       [\<lparr>ct_ID = fresh_id (map ct_ID (x_credit_transactions st)),
         ct_UserID = po_UserID order0, ct_Type = ''earn'', ct_Amount = po_Credits order0,
         ct_Balance = balance_of st1 (po_UserID order0),
         ct_Source = purchase_reason orderNo, ct_SourceID = orderNo,
         ct_Description = purchase_reason orderNo\<rparr>]"
proof -
  let ?upd = "\<lambda>ord. ord\<lparr>po_Status := ''completed'',
        po_PaymentData := transaction_payload tid, po_PaidAt := Some paidAt\<rparr>"
  from assms(3) obtain order0 s1 s2 where
    g: "db_GetPaymentOrderByOrderNo orderNo st = (Inr order0, s1)" and
    p: "po_Status order0 = ''pending''" and
    e: "\<not> PaymentOrder_IsExpired now order0" and
    up: "db_UpdatePaymentOrder (?upd order0) s1 = (Inr (), s2)" and
    ad: "AddCredits (po_UserID order0) (po_Credits order0) (purchase_reason orderNo) orderNo s2 =
       (Inr (), st1)"
    by (rule CompletePaymentOrder_InrE)
  note G = db_GetOrder_cases [OF g]
  note U = db_UpdateOrder_cases [OF up]
  have o0: "order_of st orderNo = Some order0" using G(4) by simp
  have no: "po_OrderNo order0 = orderNo" using o0 by (auto simp: order_of_def find_Some_iff)
  have led: "x_user_credits s2 = x_user_credits st"
    "x_credit_transactions s2 = x_credit_transactions st"
    using G(1,2) U(1,2) by simp_all
  have k2: "keys_ok s2" using assms(1) led by (simp add: keys_ok_def)
  have b2: "balance_of s2 (po_UserID order0) = balance_of st (po_UserID order0)"
    using led by (simp add: balance_of_def account_of_def)
  have sv: "x_payment_orders s2 = save_row po_ID (?upd order0) (x_payment_orders st)"
    using U(4) G(3) by simp
  have "order_of s2 orderNo = Some (?upd order0)"
    using order_of_save [OF assms(2) o0 _ _ sv] no by simp
  moreover have "x_payment_orders st1 = x_payment_orders s2"
    using AddCredits_ledger_only [OF ad] by (simp add: ledger_only_def)
  ultimately have o1: "order_of st1 orderNo = Some (?upd order0)" by (simp add: order_of_def)
  from AddCredits_cases [OF k2 ad]
  have bal: "balance_of st1 (po_UserID order0) = balance_of s2 (po_UserID order0) + po_Credits order0"
    and tx: "x_credit_transactions st1 = x_credit_transactions s2 @
       [\<lparr>ct_ID = fresh_id (map ct_ID (x_credit_transactions s2)),
         ct_UserID = po_UserID order0, ct_Type = ''earn'', ct_Amount = po_Credits order0,
         ct_Balance = balance_of st1 (po_UserID order0),
         ct_Source = purchase_reason orderNo, ct_SourceID = orderNo,
         ct_Description = purchase_reason orderNo\<rparr>]"
    by auto
  show ?thesis
    using o0 p e o1 bal [unfolded b2] tx [unfolded led] by (rule that)
qed

text \<open>
  Every successful completion, whatever the order, leaves the order in the status
  \<open>completed\<close>, which \<open>IsPaid\<close> does not accept.
\<close>

lemma Complete_success_not_paid:
  assumes "keys_ok st" "orders_ok st"
    and "CompletePaymentOrder orderNo tid paidAt now st = (Inr x, st1)"
  shows "\<exists>c. order_of st1 orderNo = Some c \<and> po_Status c = ''completed'' \<and>
             \<not> PaymentOrder_IsPaid c \<and> po_PaidAt c = Some paidAt \<and>
             po_PaymentData c = transaction_payload tid"
proof -
  from CompletePaymentOrder_success [OF assms] obtain order0 where
    "order_of st1 orderNo = Some (order0\<lparr>po_Status := ''completed'',
        po_PaymentData := transaction_payload tid, po_PaidAt := Some paidAt\<rparr>)"
    by metis
  then show ?thesis by (simp add: PaymentOrder_IsPaid_def)
qed

text \<open>
  \<open>CancelPaymentOrder\<close> gives the same result for every caller, and refuses an order that
  is not pending when its lookup is served.
\<close>

lemma Cancel_ignores_user:
  "CancelPaymentOrder orderNo userID st = CancelPaymentOrder orderNo userID' st"
  by (simp add: CancelPaymentOrder_def)

lemma Cancel_not_pending:
  assumes "order_of st orderNo = Some c" "po_Status c \<noteq> ''pending''" "\<not> next_fails st"
  shows "fst (CancelPaymentOrder orderNo userID st) = Inl (ErrNew InvalidOrderState)"
proof -
  obtain r0 s0 where g: "db_GetPaymentOrderByOrderNo orderNo st = (r0, s0)" by force
  have "r0 = Inr c" using db_GetOrder_cases(5) [OF g] assms(1,3) by simp
  with g assms(2) show ?thesis by (simp add: CancelPaymentOrder_def)
qed

text \<open>
  An Alipay notification with a non-empty \<open>out_trade_no\<close> string leaves the state that
  \<open>CompletePaymentOrder\<close> leaves for that order number, whatever else the body holds.
\<close>

lemma PaymentNotification_alipay:
  assumes "rq_provider c = ''alipay''" "rq_json c = Some paymentData"
    and "paymentData ''out_trade_no'' = Some (JString orderNo)" "orderNo \<noteq> []"
  shows "snd (PaymentNotification c now st) =
           snd (CompletePaymentOrder orderNo ''mock_transaction_id'' now now st)"
  using assms
  by (simp add: PaymentNotification_def notification_complete_def
      split: prod.splits sum.splits)

lemmas order_eval = stmt_def fresh_id_def save_row_def
  db_GetUserCreditsByUserID_def db_CreateUserCredits_def db_UpdateUserCredits_def
  db_CreateCreditTransaction_def CreateUserCredits_def GetUserCredits_def AddCredits_def
  db_GetPaymentOrderByOrderNo_def db_UpdatePaymentOrder_def
  CompletePaymentOrder_def CancelPaymentOrder_def PaymentOrder_IsExpired_def
  PaymentOrder_IsPaid_def account_of_def balance_of_def order_of_def keys_ok_def
  orders_ok_def next_fails_def empty_db_def ledger_example_def order_example_def Let_def

text \<open>
  C2. After a call of \<open>CompletePaymentOrder\<close> that succeeded, the order that was pending
  is no longer pending, the owner's balance has grown by the order's credits and one
  transaction has been appended. A second call for the same order number then fails, with
  the invalid-state error whenever its lookup of the order is served (and with the wrapped
  storage error otherwise), and leaves every account and the transaction history as the
  first call left them: the order is credited once.
\<close>

theorem Complete_twice_credits_once:
  assumes "keys_ok st" and "orders_ok st"
    and "CompletePaymentOrder orderNo tid paidAt now st = (Inr (), st1)"
    and "CompletePaymentOrder orderNo tid2 paidAt2 now2 st1 = (r2, st2)"
  shows "\<exists>order0 order1.
           order_of st orderNo = Some order0 \<and> po_Status order0 = ''pending'' \<and>
           order_of st1 orderNo = Some order1 \<and> po_Status order1 \<noteq> ''pending'' \<and>
           balance_of st1 (po_UserID order0) =
             balance_of st (po_UserID order0) + po_Credits order0 \<and>
           length (x_credit_transactions st1) = Suc (length (x_credit_transactions st)) \<and>
           r2 = (if next_fails st1 then Inl (ErrWrap GetOrderFailed ErrDB)
                 else Inl (ErrNew InvalidOrderState)) \<and>
           x_user_credits st2 = x_user_credits st1 \<and>
           balance_of st2 (po_UserID order0) = balance_of st1 (po_UserID order0) \<and>
           x_credit_transactions st2 = x_credit_transactions st1 \<and>
           x_payment_orders st2 = x_payment_orders st1"
proof -
  let ?upd = "\<lambda>ord. ord\<lparr>po_Status := ''completed'',
        po_PaymentData := transaction_payload tid, po_PaidAt := Some paidAt\<rparr>"
  from CompletePaymentOrder_success [OF assms(1,2,3)] obtain order0 where
    o0: "order_of st orderNo = Some order0" and p: "po_Status order0 = ''pending''" and
    o1: "order_of st1 orderNo = Some (?upd order0)" and
    bal: "balance_of st1 (po_UserID order0) =
            balance_of st (po_UserID order0) + po_Credits order0" and
    tx: "x_credit_transactions st1 = x_credit_transactions st @
       [\<lparr>ct_ID = fresh_id (map ct_ID (x_credit_transactions st)),
         ct_UserID = po_UserID order0, ct_Type = ''earn'', ct_Amount = po_Credits order0,
         ct_Balance = balance_of st1 (po_UserID order0),
         ct_Source = purchase_reason orderNo, ct_SourceID = orderNo,
         ct_Description = purchase_reason orderNo\<rparr>]"
    by metis
  have np: "po_Status (?upd order0) \<noteq> ''pending''" by simp
  note N = CompletePaymentOrder_not_pending [OF o1 np assms(4)]
  have len: "length (x_credit_transactions st1) = Suc (length (x_credit_transactions st))"
    using tx by simp
  have b2: "balance_of st2 (po_UserID order0) = balance_of st1 (po_UserID order0)"
    using N(2) by (simp add: balance_of_def account_of_def)
  show ?thesis
    using o0 p o1 np bal len N b2 by blast
qed

theorem Complete_twice_credits_once_witness:
  "keys_ok order_example \<and> orders_ok order_example \<and>
   fst (CompletePaymentOrder ''OL1'' ''T1'' 1000 1000 order_example) = Inr () \<and>
   balance_of order_example 7 = 100 \<and>
   balance_of (snd (CompletePaymentOrder ''OL1'' ''T1'' 1000 1000 order_example)) 7 = 600 \<and>
   fst (CompletePaymentOrder ''OL1'' ''T2'' 1001 1001
          (snd (CompletePaymentOrder ''OL1'' ''T1'' 1000 1000 order_example))) =
     Inl (ErrNew InvalidOrderState) \<and>
   balance_of (snd (CompletePaymentOrder ''OL1'' ''T2'' 1001 1001
          (snd (CompletePaymentOrder ''OL1'' ''T1'' 1000 1000 order_example)))) 7 = 600"
proof -
  let ?s1 = "snd (CompletePaymentOrder ''OL1'' ''T1'' 1000 1000 order_example)"
  have k: "keys_ok order_example" and o: "orders_ok order_example"
    by (simp_all add: order_eval)
  have r1: "fst (CompletePaymentOrder ''OL1'' ''T1'' 1000 1000 order_example) = Inr ()"
    by (simp add: order_eval)
  have e1: "CompletePaymentOrder ''OL1'' ''T1'' 1000 1000 order_example = (Inr (), ?s1)"
    using r1 by (metis prod.collapse)
  have e2: "CompletePaymentOrder ''OL1'' ''T2'' 1001 1001 ?s1 =
      (fst (CompletePaymentOrder ''OL1'' ''T2'' 1001 1001 ?s1),
       snd (CompletePaymentOrder ''OL1'' ''T2'' 1001 1001 ?s1))" by simp
  have v: "order_of order_example ''OL1'' =
      Some \<lparr>po_ID = 1, po_OrderNo = ''OL1'', po_UserID = 7, po_Credits = 500,
            po_Amount = 500, po_Currency = ''CNY'', po_PaymentMethod = ''alipay'',
            po_Status = ''pending'', po_PaidAt = None, po_ExpiresAt = 1800,
            po_PaymentData = []\<rparr>"
    "balance_of order_example 7 = 100"
    by (simp_all add: order_eval)
  have nf: "\<not> next_fails ?s1" by (simp add: order_eval)
  show ?thesis
    using Complete_twice_credits_once [OF k o e1 e2] k o r1 v nf by auto
qed

text \<open>
  C7. The order \<open>OL1\<close> of user 7 is pending and not expired at instant 1000.
  \<open>CompletePaymentOrder\<close> succeeds, stores the paid-at instant and the payload, and
  credits the owner with the order number as source identifier; but the status it stores
  is \<open>completed\<close>, for which \<open>IsPaid\<close> is false, and the source category it records is
  the description text built from the order number, not \<open>purchase\<close>.
\<close>

theorem Complete_status_is_not_paid:
  "fst (CompletePaymentOrder ''OL1'' ''T1'' 1000 1000 order_example) = Inr () \<and>
   map po_Status
     (x_payment_orders (snd (CompletePaymentOrder ''OL1'' ''T1'' 1000 1000 order_example))) =
     [''completed''] \<and>
   map PaymentOrder_IsPaid
     (x_payment_orders (snd (CompletePaymentOrder ''OL1'' ''T1'' 1000 1000 order_example))) =
     [False] \<and>
   map po_PaidAt
     (x_payment_orders (snd (CompletePaymentOrder ''OL1'' ''T1'' 1000 1000 order_example))) =
     [Some 1000] \<and>
   map po_PaymentData
     (x_payment_orders (snd (CompletePaymentOrder ''OL1'' ''T1'' 1000 1000 order_example))) =
     [transaction_payload ''T1''] \<and>
   map ct_Source
     (x_credit_transactions
        (snd (CompletePaymentOrder ''OL1'' ''T1'' 1000 1000 order_example))) =
     [''admin'', purchase_reason ''OL1''] \<and>
   purchase_reason ''OL1'' \<noteq> ''purchase'' \<and>
   map ct_SourceID
     (x_credit_transactions
        (snd (CompletePaymentOrder ''OL1'' ''T1'' 1000 1000 order_example))) =
     [[], ''OL1'']"
  by (simp add: order_eval purchase_reason_def)

text \<open>
  C8. The pending order \<open>OL1\<close> belongs to user 7. \<open>CancelPaymentOrder\<close> called for user 8
  succeeds and cancels it: the function never reads its \<open>userID\<close> argument.
\<close>

theorem Cancel_by_another_user:
  "map po_UserID (x_payment_orders order_example) = [7] \<and>
   map po_Status (x_payment_orders order_example) = [''pending''] \<and>
   fst (CancelPaymentOrder ''OL1'' 8 order_example) = Inr () \<and>
   map po_Status (x_payment_orders (snd (CancelPaymentOrder ''OL1'' 8 order_example))) =
     [''cancelled'']"
  by (simp add: order_eval)

text \<open>
  C1. A notification for the pending order \<open>OL1\<close> that carries no signature (under a key
  for which no signature verifies, the adapter's \<open>VerifyPayment\<close> rejects it) is answered
  with \<open>success\<close>: the handler calls \<open>CompletePaymentOrder\<close> without any verification,
  the order leaves the pending state and user 7 is credited with its 500 credits.
\<close>

theorem PaymentNotification_completes_unverified:
  "string_params (the (rq_json unsigned_notification)) ''sign'' = None \<and>
   AlipayProvider_VerifyPayment (\<lambda>params. False) (\<lambda>s. None) ''OL1''
     (the (rq_json unsigned_notification)) 1000 = Inl (ErrNew InvalidSignature) \<and>
   fst (PaymentNotification unsigned_notification 1000 order_example) =
     StringResp 200 ''success'' \<and>
   map po_Status (x_payment_orders order_example) = [''pending''] \<and>
   map po_Status
     (x_payment_orders (snd (PaymentNotification unsigned_notification 1000 order_example))) =
     [''completed''] \<and>
   balance_of order_example 7 = 100 \<and>
   balance_of (snd (PaymentNotification unsigned_notification 1000 order_example)) 7 = 600 \<and>
   length (x_credit_transactions
     (snd (PaymentNotification unsigned_notification 1000 order_example))) = 2"
  by (simp add: order_eval PaymentNotification_def notification_complete_def
      notification_reply_def unsigned_notification_def AlipayProvider_VerifyPayment_def
      string_params_def)

section \<open>Resolving a price\<close>

lemmas pricing_eval = stmt_def db_GetFileCreditsConfigByPath_def
  db_GetInheritableCreditsConfig_def GetFileCreditsConfig_def
  CheckFileDownloadPermission_def db_GetUserCreditsByUserID_def db_CreateUserCredits_def
  CreateUserCredits_def GetUserCredits_def fresh_id_def
  ascii_lower_def utf8_rest_def is_lead_def is_continuation_def sqlite_length_def
  empty_db_def pricing_example_def underscore_example_def Let_def

text \<open>
  On the rules of the specification's example the lookup gives 5 credits for \<open>/a/b/c\<close>,
  2 credits for \<open>/a/b\<close>, and no rule for \<open>/x\<close>, which the permission check prices
  at 0.
\<close>

lemma pricing_example_lookup:
  "map_sum id fc_Credits (fst (GetFileCreditsConfig ''/a/b/c'' pricing_example)) = Inr 5"
  "map_sum id fc_Credits (fst (GetFileCreditsConfig ''/a/b'' pricing_example)) = Inr 2"
  "fst (GetFileCreditsConfig ''/x'' pricing_example) = Inl ErrRecordNotFound"
  "fst (CheckFileDownloadPermission 7 ''/x'' pricing_example) = (True, 0, None)"
  by (simp_all add: pricing_eval)

text \<open>
  The letters of the stored path match without regard to case: the rule \<open>/a\<close> also
  prices \<open>/A/b/c\<close>, of which it is not a prefix.
\<close>

lemma pricing_example_case:
  "\<not> prefix ''/a'' ''/A/b/c''"
  "map_sum id fc_Path (fst (GetFileCreditsConfig ''/A/b/c'' pricing_example)) = Inr ''/a''"
  "map_sum id fc_Credits (fst (GetFileCreditsConfig ''/A/b/c'' pricing_example)) = Inr 5"
  by (simp_all add: pricing_eval)

text \<open>
  A stored path without \<open>%\<close> and \<open>_\<close> matches, as the pattern of the inheritance
  query, exactly the paths that it is a prefix of up to the case of ASCII letters.
\<close>

lemma sql_like_any: "sql_like s ''%''"
proof (induction s rule: length_induct)
  case (1 s)
  show ?case
  proof (cases s)
    case Nil
    then show ?thesis by simp
  next
    case (Cons c cs)
    have "length (utf8_rest c cs) < length s"
      using Cons by (simp add: utf8_rest_def less_Suc_eq_le length_dropWhile_le)
    with 1 have "sql_like (utf8_rest c cs) ''%''" by blast
    with Cons show ?thesis by simp
  qed
qed

lemma sql_like_prefix:
  assumes "CHR ''%'' \<notin> set p" "CHR ''_'' \<notin> set p"
  shows "sql_like s (p @ ''%'') \<longleftrightarrow> prefix (map ascii_lower p) (map ascii_lower s)"
  using assms
proof (induction p arbitrary: s)
  case Nil
  then show ?case by (simp add: sql_like_any)
next
  case (Cons a p)
  show ?case
  proof (cases s)
    case Nil
    with Cons.prems show ?thesis by auto
  next
    case (Cons c cs)
    with Cons.prems Cons.IH [of cs] show ?thesis by auto
  qed
qed

lemma sort_key_head:
  assumes "sort_key f xs = c # rest"
  shows "c \<in> set xs" and "\<forall>x \<in> set xs. f c \<le> f x"
proof -
  have s: "set (sort_key f xs) = set xs" by simp
  with assms show "c \<in> set xs" by auto
  have "sorted (map f (sort_key f xs))" by (rule sorted_sort_key)
  with assms have "\<forall>y \<in> set rest. f c \<le> f y" by simp
  with s assms show "\<forall>x \<in> set xs. f c \<le> f x" by auto
qed

text \<open>
  When no stored path contains \<open>%\<close> or \<open>_\<close> and no statement fails, the lookup is the
  longest-prefix resolution up to the case of ASCII letters: the enabled rule of the path
  itself if there is one; otherwise an enabled, inheritable folder rule whose path is, up
  to case, a prefix of the queried path and has at least as many characters as the path of
  every other such rule; and the not-found error when there is none.
\<close>

lemma GetFileCreditsConfig_longest_prefix:
  assumes nf: "faults st = []"
    and wf: "\<forall>r \<in> set (x_file_credits_configs st). wildcard_free (fc_Path r)"
  shows "case fst (GetFileCreditsConfig path st) of
           Inr c \<Rightarrow>
             c \<in> set (x_file_credits_configs st) \<and> fc_Enabled c \<and>
             (fc_Path c = path \<or>
              (\<forall>r \<in> set (x_file_credits_configs st). \<not> (fc_Path r = path \<and> fc_Enabled r)) \<and>
              candidate path c \<and>
              (\<forall>r \<in> set (x_file_credits_configs st).
                  candidate path r \<longrightarrow>
                    sqlite_length (fc_Path r) \<le> sqlite_length (fc_Path c)))
         | Inl e \<Rightarrow>
             e = ErrRecordNotFound \<and>
             (\<forall>r \<in> set (x_file_credits_configs st).
                 \<not> (fc_Path r = path \<and> fc_Enabled r) \<and> \<not> candidate path r)"
proof -
  let ?rules = "x_file_credits_configs st"
  have st: "stmt st = (False, st)" using nf by (simp add: stmt_def)
  have flt: "filter (\<lambda>r. sql_like path (fc_Path r @ ''%'') \<and> fc_IsFolder r \<and>
                         fc_Inheritable r \<and> fc_Enabled r) ?rules =
             filter (candidate path) ?rules"
    using wf by (intro filter_cong) (auto simp: candidate_def wildcard_free_def sql_like_prefix)
  show ?thesis
  proof (cases "find (\<lambda>r. fc_Path r = path \<and> fc_Enabled r) ?rules")
    case (Some c)
    then have "c \<in> set ?rules" "fc_Path c = path" "fc_Enabled c"
      by (auto simp: find_Some_iff)
    moreover have "fst (GetFileCreditsConfig path st) = Inr c"
      using Some st by (simp add: GetFileCreditsConfig_def db_GetFileCreditsConfigByPath_def)
    ultimately show ?thesis by simp
  next
    case None
    then have no: "\<forall>r \<in> set ?rules. \<not> (fc_Path r = path \<and> fc_Enabled r)"
      by (auto simp: find_None_iff)
    let ?sorted = "sort_key (\<lambda>r. - int (sqlite_length (fc_Path r)))
                          (filter (candidate path) ?rules)"
    have res: "fst (GetFileCreditsConfig path st) =
        (case ?sorted of [] \<Rightarrow> Inl ErrRecordNotFound | r # rs \<Rightarrow> Inr r)"
      using None st flt
      by (simp add: GetFileCreditsConfig_def db_GetFileCreditsConfigByPath_def
          db_GetInheritableCreditsConfig_def split: list.splits)
    show ?thesis
    proof (cases ?sorted)
      case Nil
      then have "set (filter (candidate path) ?rules) = {}"
        by (metis set_sort set_empty)
      then have "\<forall>r \<in> set ?rules. \<not> candidate path r" by auto
      with res Nil no show ?thesis by simp
    next
      case (Cons c rest)
      from sort_key_head [OF Cons]
      have c: "c \<in> set ?rules" "candidate path c"
        and m: "\<forall>r \<in> set ?rules. candidate path r \<longrightarrow>
                  sqlite_length (fc_Path r) \<le> sqlite_length (fc_Path c)"
        by auto
      from c have "fc_Enabled c" by (simp add: candidate_def)
      with res Cons no c m show ?thesis by simp
    qed
  qed
qed

text \<open>
  C6. The only rule is the inheritable folder rule \<open>/my_files\<close>, which is not a prefix of
  \<open>/myXfiles/doc\<close>. The lookup for \<open>/myXfiles/doc\<close> returns that rule all the same, and
  the download is priced at 7 credits: the underscore of the stored path stands for any
  character in the pattern of the inheritance query.
\<close>

theorem GetFileCreditsConfig_matches_non_prefix:
  "map fc_Path (x_file_credits_configs underscore_example) = [''/my_files''] \<and>
   \<not> prefix ''/my_files'' ''/myXfiles/doc'' \<and>
   map_sum id fc_Path (fst (GetFileCreditsConfig ''/myXfiles/doc'' underscore_example)) =
     Inr ''/my_files'' \<and>
   map_sum id fc_Credits (fst (GetFileCreditsConfig ''/myXfiles/doc'' underscore_example)) =
     Inr 7 \<and>
   fst (CheckFileDownloadPermission 7 ''/myXfiles/doc'' underscore_example) =
     (False, 7, None)"
  by (simp add: pricing_eval word_sless_alt word_sle_eq)

section \<open>Failures of a redeem attempt\<close>

lemma db_GetRedeemCode_cases:
  assumes "db_GetRedeemCodeByCode code st = (r, st1)"
  shows "r = (if next_fails st then Inl ErrDB
              else case enabled_code st code of None \<Rightarrow> Inl ErrRecordNotFound
                   | Some c \<Rightarrow> Inr c)"
  using assms
  by (auto simp: db_GetRedeemCodeByCode_def enabled_code_def next_fails_def
      split: prod.splits bool.splits option.splits dest: stmt_tables)

lemma RedeemCode_usable_result:
  assumes "db_GetRedeemCodeByCode code st = (Inr c, s0)" "RedeemCode_CanUse now c"
    and "RedeemCode u code now st = (r, st')"
  shows "r = Inr () \<or> (\<exists>w e. r = Inl (ErrWrap w e))"
  using assms
  by (auto simp: RedeemCode_def Let_def split: prod.splits sum.splits)

lemmas redeem_eval = stmt_def fresh_id_def save_row_def
  db_GetUserCreditsByUserID_def db_CreateUserCredits_def db_UpdateUserCredits_def
  db_CreateCreditTransaction_def CreateUserCredits_def GetUserCredits_def AddCredits_def
  db_GetRedeemCodeByCode_def db_UpdateRedeemCode_def db_CreateRedeemCodeUsage_def
  RedeemCode_def RedeemCode_CanUse_def RedeemCode_IsExpired_def
  account_of_def balance_of_def enabled_code_def next_fails_def
  empty_db_def ledger_example_def redeem_example_def Let_def

text \<open>
  C9, as stated, fails. The code \<open>OLOFF\<close> exists and is disabled; redeeming it fails with
  the not-found error, not with the unusable one.
\<close>

theorem RedeemCode_disabled_counterexample:
  "map rc_Code (x_redeem_codes redeem_example) = [''OLOFF'', ''OLUSED'', ''OLGOOD''] \<and>
   map rc_Enabled (x_redeem_codes redeem_example) = [False, True, True] \<and>
   fst (RedeemCode 7 ''OLOFF'' 50 redeem_example) = Inl (ErrNew CodeNotFound) \<and>
   fst (RedeemCode 7 ''OLOFF'' 50 redeem_example) \<noteq> Inl (ErrNew CodeUnusable)"
  by (simp add: redeem_eval)

text \<open>
  C9, amended. The lookup of \<open>RedeemCode\<close> only sees enabled codes. When the lookup is
  served, the redeem attempt fails with the not-found error exactly when no enabled code
  with that string exists (so for a code that exists but is disabled), and fails with the
  unusable error exactly when the enabled code with that string is expired or its
  used-count has reached max-uses.
\<close>

theorem RedeemCode_failures:
  assumes "\<not> next_fails st" and "RedeemCode u code now st = (r, st')"
  shows "(r = Inl (ErrNew CodeNotFound) \<longleftrightarrow>
            \<not> (\<exists>c \<in> set (x_redeem_codes st). rc_Code c = code \<and> rc_Enabled c)) \<and>
         (r = Inl (ErrNew CodeUnusable) \<longleftrightarrow>
            (\<exists>c. enabled_code st code = Some c \<and>
                 (RedeemCode_IsExpired now c \<or> rc_MaxUses c \<le> rc_UsedCount c)))"
proof -
  obtain r0 s0 where g: "db_GetRedeemCodeByCode code st = (r0, s0)" by force
  have r0: "r0 = (case enabled_code st code of None \<Rightarrow> Inl ErrRecordNotFound
                  | Some c \<Rightarrow> Inr c)"
    using db_GetRedeemCode_cases [OF g] assms(1) by simp
  have none: "enabled_code st code = None \<longleftrightarrow>
      \<not> (\<exists>c \<in> set (x_redeem_codes st). rc_Code c = code \<and> rc_Enabled c)"
    by (auto simp: enabled_code_def find_None_iff)
  show ?thesis
  proof (cases "enabled_code st code")
    case None
    with r0 g assms(2) have "r = Inl (ErrNew CodeNotFound)"
      by (simp add: RedeemCode_def)
    with None none show ?thesis by simp
  next
    case (Some c)
    then have en: "rc_Enabled c" by (auto simp: enabled_code_def find_Some_iff)
    from Some r0 have g': "db_GetRedeemCodeByCode code st = (Inr c, s0)" using g by simp
    show ?thesis
    proof (cases "RedeemCode_CanUse now c")
      case True
      from RedeemCode_usable_result [OF g' True assms(2)]
      have "r \<noteq> Inl (ErrNew CodeNotFound)" "r \<noteq> Inl (ErrNew CodeUnusable)" by auto
      moreover from True en
      have "\<not> (RedeemCode_IsExpired now c \<or> rc_MaxUses c \<le> rc_UsedCount c)"
        by (auto simp: RedeemCode_CanUse_def)
      ultimately show ?thesis using Some none by auto
    next
      case False
      with g' assms(2) have "r = Inl (ErrNew CodeUnusable)"
        by (simp add: RedeemCode_def)
      moreover from False en
      have "RedeemCode_IsExpired now c \<or> rc_MaxUses c \<le> rc_UsedCount c"
        by (auto simp: RedeemCode_CanUse_def)
      ultimately show ?thesis using Some none by auto
    qed
  qed
qed

theorem RedeemCode_failures_witness:
  "\<not> next_fails redeem_example \<and>
   fst (RedeemCode 7 ''OLOFF'' 50 redeem_example) = Inl (ErrNew CodeNotFound) \<and>
   fst (RedeemCode 7 ''OLUSED'' 50 redeem_example) = Inl (ErrNew CodeUnusable) \<and>
   fst (RedeemCode 7 ''OLGOOD'' 50 redeem_example) = Inr ()"
proof -
  have nf: "\<not> next_fails redeem_example" by (simp add: redeem_eval)
  have e: "\<And>code. RedeemCode 7 code 50 redeem_example =
      (fst (RedeemCode 7 code 50 redeem_example), snd (RedeemCode 7 code 50 redeem_example))"
    by simp
  have off: "\<not> (\<exists>c \<in> set (x_redeem_codes redeem_example). rc_Code c = ''OLOFF'' \<and> rc_Enabled c)"
    by (simp add: redeem_eval)
  have used: "\<exists>c. enabled_code redeem_example ''OLUSED'' = Some c \<and>
                 (RedeemCode_IsExpired 50 c \<or> rc_MaxUses c \<le> rc_UsedCount c)"
    by (simp add: redeem_eval)
  have good: "fst (RedeemCode 7 ''OLGOOD'' 50 redeem_example) = Inr ()"
    by (simp add: redeem_eval)
  show ?thesis
    using RedeemCode_failures [OF nf e [of "''OLOFF''"]]
      RedeemCode_failures [OF nf e [of "''OLUSED''"]] nf off used good
    by simp
qed

section \<open>Approving and rejecting a registration\<close>



lemma db_GetRegistration_found:
  assumes "db_GetUserRegistrationByToken token st = (Inr reg, st1)"
  shows "find (\<lambda>r. ur_Token r = token \<and> ur_Status r = 0) (x_user_registrations st) = Some reg"
    and "x_user_registrations st1 = x_user_registrations st"
    and "ur_Status reg = 0"
proof -
  show 1: "find (\<lambda>r. ur_Token r = token \<and> ur_Status r = 0) (x_user_registrations st) =
      Some reg"
    using assms
    by (auto simp: db_GetUserRegistrationByToken_def
        split: prod.splits bool.splits option.splits dest: stmt_tables)
  show "x_user_registrations st1 = x_user_registrations st"
    using assms
    by (auto simp: db_GetUserRegistrationByToken_def
        split: prod.splits bool.splits option.splits dest: stmt_tables)
  from 1 show "ur_Status reg = 0" by (auto simp: find_Some_iff)
qed


text \<open>
  The lookup only returns a registration of status 0, and approval requires status 1:
  every call of \<open>ApproveUserRegistration\<close> ends at the lookup or at the status check,
  before the user is created, so that the one statement it sends is the lookup.
\<close>

lemma ApproveUserRegistration_result:
  "ApproveUserRegistration CreateUser GENERAL registrationID st =
     (case db_GetUserRegistrationByToken [] st of
        (Inl e, st1) \<Rightarrow> (Inl (ErrWrap GetRegistrationFailed e), st1)
      | (Inr reg, st1) \<Rightarrow> (Inl (ErrNew RegistrationNotVerified), st1))"
proof -
  obtain r0 s0 where g: "db_GetUserRegistrationByToken [] st = (r0, s0)" by force
  show ?thesis
  proof (cases r0)
    case (Inl e)
    with g show ?thesis by (simp add: ApproveUserRegistration_def)
  next
    case (Inr reg)
    with g db_GetRegistration_found(3) [of "[]" st reg s0] show ?thesis
      by (simp add: ApproveUserRegistration_def)
  qed
qed


lemma ApproveUserRegistration_never_succeeds:
  "fst (ApproveUserRegistration CreateUser GENERAL registrationID st) \<noteq> Inr user"
  by (simp add: ApproveUserRegistration_result split: prod.splits sum.splits)




end
